theory Spec2Isabelle
  imports Main
begin

section \<open>Python values and exceptions\<close>

type_synonym key = string

text \<open>
  A value that is a \<^verbatim>\<open>str\<close> or \<^verbatim>\<open>None\<close> is a \<open>string option\<close>. Python treats
  \<^verbatim>\<open>None\<close> and the empty string as false; \<^verbatim>\<open>a or b\<close> is \<^verbatim>\<open>a\<close> when \<^verbatim>\<open>a\<close> is
  true and \<^verbatim>\<open>b\<close> otherwise; an f-string prints \<^verbatim>\<open>None\<close> as the four letters.
\<close>

definition truthy :: "string option \<Rightarrow> bool" where
  "truthy v = (case v of None \<Rightarrow> False | Some s \<Rightarrow> s \<noteq> [])"

definition py_or :: "string option \<Rightarrow> string option \<Rightarrow> string option" where
  "py_or a b = (if truthy a then a else b)"

definition format_opt :: "string option \<Rightarrow> string" where
  "format_opt v = (case v of None \<Rightarrow> ''None'' | Some s \<Rightarrow> s)"

text \<open>
  The exceptions the two services can meet. \<open>JIRAError\<close> is the provider error of the
  client library: it carries a status code, its \<^verbatim>\<open>text\<close> attribute and the string
  \<^verbatim>\<open>str(e)\<close> renders. \<open>AttributeError\<close> is raised by reading an attribute a resource
  does not have. \<open>Exception\<close> stands for any other exception, with its message.
\<close>

datatype exn =
    JIRAError (status_code: nat) (e_text: "string option") (e_str: string)
  | AttributeError string
  | Exception string

fun str :: "exn \<Rightarrow> string" where
  "str (JIRAError c txt s) = s"
| "str (AttributeError m) = m"
| "str (Exception m) = m"

section \<open>Resources of the tracker\<close>

text \<open>
  Resources are built from the tracker's JSON, so an attribute may be absent:
  \<open>u_name u = None\<close> says that the user resource has no \<^verbatim>\<open>name\<close> attribute
  (\<^verbatim>\<open>hasattr(u, 'name')\<close> is false and \<^verbatim>\<open>u.name\<close> raises).
\<close>

record user =
  u_name :: "string option"
  u_key :: "string option"

record project =
  p_id :: string
  p_key :: string
  p_name :: string

text \<open>
  An issue resource is a key and the fields fetched with it (\<^verbatim>\<open>issue.key\<close>,
  \<^verbatim>\<open>issue.fields.status.name\<close>, \<^verbatim>\<open>issue.fields.assignee\<close>, ...): a copy of what the
  tracker held when it was fetched.
\<close>

record issue_data =
  f_status :: string
  f_assignee :: "user option"
  f_subtasks :: "key list"
  f_project :: project

record issue =
  i_key :: key
  i_fields :: issue_data

record transition =
  t_id :: string
  t_to :: string

record worklog =
  w_author :: user
  w_timeSpent :: string

record issue_type =
  it_id :: string
  it_name :: string

record myself =
  m_name :: "string option"
  m_key :: "string option"
  m_displayName :: "string option"
  m_emailAddress :: "string option"

text \<open>
  The dictionary \<^verbatim>\<open>fields\<close> sent to create a sub-task; its last entry is the custom
  field, kept as the pair of its identifier and its value.
\<close>

record create_fields =
  cf_project_id :: string
  cf_parent_key :: key
  cf_summary :: string
  cf_description :: string
  cf_issuetype_id :: string
  cf_originalEstimate :: string
  cf_custom :: "string \<times> string"

definition attr_name :: "user \<Rightarrow> exn + string" where
  "attr_name u = (case u_name u of None \<Rightarrow> Inl (AttributeError ''name'') | Some n \<Rightarrow> Inr n)"

definition attr_key :: "user \<Rightarrow> exn + string" where
  "attr_key u = (case u_key u of None \<Rightarrow> Inl (AttributeError ''key'') | Some n \<Rightarrow> Inr n)"

definition hasattr_name :: "user \<Rightarrow> bool" where
  "hasattr_name u = (u_name u \<noteq> None)"

section \<open>The remote tracker\<close>

text \<open>
  The services only talk to the tracker through the client library. The tracker is a
  state: the fields of every issue, the worklogs of every issue, the transitions each
  issue offers in each status, the issue types, and the authenticated user. Every remote
  call is recorded in \<open>calls\<close>. \<open>faults\<close> is the script of the calls to come: each
  call takes the head of the list and raises the exception found there, if any; when
  the script is used up, calls no longer fail on their own.
\<close>

datatype call =
    Myself
  | GetIssue key
  | Transitions key
  | TransitionIssue key string
  | AddWorklog key string
  | Worklogs key
  | CreateIssue create_fields
  | AssignIssue key "string option"
  | IssueTypes

record tracker =
  myself_info :: myself
  issues :: "key \<rightharpoonup> issue_data"
  worklog_store :: "key \<Rightarrow> worklog list"
  workflow :: "key \<Rightarrow> string \<Rightarrow> transition list"
  issue_types :: "issue_type list"
  next_number :: nat
  faults :: "exn option list"
  calls :: "call list"

fun next_fault :: "exn option list \<Rightarrow> exn option" where
  "next_fault [] = None"
| "next_fault (f # fs) = f"

definition tick :: "call \<Rightarrow> tracker \<Rightarrow> tracker" where
  "tick c t = t\<lparr>faults := tl (faults t), calls := calls t @ [c]\<rparr>"

definition remote :: "call \<Rightarrow> tracker \<Rightarrow> exn option \<times> tracker" where
  "remote c t = (next_fault (faults t), tick c t)"

definition not_found :: exn where
  "not_found = JIRAError 404 (Some ''Issue Does Not Exist'') ''JiraError HTTP 404''"

definition bad_request :: exn where
  "bad_request = JIRAError 400 (Some ''Bad Request'') ''JiraError HTTP 400''"

definition jira_myself :: "tracker \<Rightarrow> (exn + myself) \<times> tracker" where
  "jira_myself t =
     (case remote Myself t of
        (Some e, t') \<Rightarrow> (Inl e, t')
      | (None, t') \<Rightarrow> (Inr (myself_info t'), t'))"

definition jira_issue :: "key \<Rightarrow> tracker \<Rightarrow> (exn + issue) \<times> tracker" where
  "jira_issue k t =
     (case remote (GetIssue k) t of
        (Some e, t') \<Rightarrow> (Inl e, t')
      | (None, t') \<Rightarrow>
          (case issues t' k of
             None \<Rightarrow> (Inl not_found, t')
           | Some d \<Rightarrow> (Inr \<lparr>i_key = k, i_fields = d\<rparr>, t')))"

definition jira_transitions :: "key \<Rightarrow> tracker \<Rightarrow> (exn + transition list) \<times> tracker" where
  "jira_transitions k t =
     (case remote (Transitions k) t of
        (Some e, t') \<Rightarrow> (Inl e, t')
      | (None, t') \<Rightarrow>
          (case issues t' k of
             None \<Rightarrow> (Inl not_found, t')
           | Some d \<Rightarrow> (Inr (workflow t' k (f_status d)), t')))"

text \<open>
  Executing a transition by its identifier moves the issue to the status that the
  transition with this identifier, among those the issue offers now, leads to.
\<close>

definition jira_transition_issue :: "key \<Rightarrow> string \<Rightarrow> tracker \<Rightarrow> (exn + unit) \<times> tracker" where
  "jira_transition_issue k tid t =
     (case remote (TransitionIssue k tid) t of
        (Some e, t') \<Rightarrow> (Inl e, t')
      | (None, t') \<Rightarrow>
          (case issues t' k of
             None \<Rightarrow> (Inl not_found, t')
           | Some d \<Rightarrow>
               (case find (\<lambda>tr. t_id tr = tid) (workflow t' k (f_status d)) of
                  None \<Rightarrow> (Inl bad_request, t')
                | Some tr \<Rightarrow>
                    (Inr (), t'\<lparr>issues := (issues t')(k \<mapsto> d\<lparr>f_status := t_to tr\<rparr>)\<rparr>))))"

text \<open>A new worklog is written in the name of the authenticated user.\<close>

definition jira_add_worklog :: "key \<Rightarrow> string \<Rightarrow> tracker \<Rightarrow> (exn + unit) \<times> tracker" where
  "jira_add_worklog k time_spent t =
     (case remote (AddWorklog k time_spent) t of
        (Some e, t') \<Rightarrow> (Inl e, t')
      | (None, t') \<Rightarrow>
          (case issues t' k of
             None \<Rightarrow> (Inl not_found, t')
           | Some d \<Rightarrow>
               (Inr (), t'\<lparr>worklog_store := (worklog_store t')
                  (k := worklog_store t' k @
                     [\<lparr>w_author = \<lparr>u_name = m_name (myself_info t'), u_key = m_key (myself_info t')\<rparr>,
                       w_timeSpent = time_spent\<rparr>])\<rparr>)))"

definition jira_worklogs :: "key \<Rightarrow> tracker \<Rightarrow> (exn + worklog list) \<times> tracker" where
  "jira_worklogs k t =
     (case remote (Worklogs k) t of
        (Some e, t') \<Rightarrow> (Inl e, t')
      | (None, t') \<Rightarrow>
          (case issues t' k of
             None \<Rightarrow> (Inl not_found, t')
           | Some d \<Rightarrow> (Inr (worklog_store t' k), t')))"

definition jira_issue_types :: "tracker \<Rightarrow> (exn + issue_type list) \<times> tracker" where
  "jira_issue_types t =
     (case remote IssueTypes t of
        (Some e, t') \<Rightarrow> (Inl e, t')
      | (None, t') \<Rightarrow> (Inr (issue_types t'), t'))"

fun digits :: "nat \<Rightarrow> string" where
  "digits n =
     (if n < 10 then [char_of (48 + n)] else digits (n div 10) @ [char_of (48 + n mod 10)])"

declare digits.simps [simp del]

text \<open>
  A created issue gets a key of the parent's project with the next free number, starts
  in \<open>Open\<close> with no assignee, and is entered among the parent's sub-tasks.
\<close>

definition jira_create_issue :: "create_fields \<Rightarrow> tracker \<Rightarrow> (exn + issue) \<times> tracker" where
  "jira_create_issue fs t =
     (case remote (CreateIssue fs) t of
        (Some e, t') \<Rightarrow> (Inl e, t')
      | (None, t') \<Rightarrow>
          (case issues t' (cf_parent_key fs) of
             None \<Rightarrow> (Inl bad_request, t')
           | Some parent \<Rightarrow>
               (let k = p_key (f_project parent) @ ''-'' @ digits (next_number t');
                    d = \<lparr>f_status = ''Open'', f_assignee = None, f_subtasks = [],
                         f_project = f_project parent\<rparr>
                in (Inr \<lparr>i_key = k, i_fields = d\<rparr>,
                    t'\<lparr>issues := (issues t')
                          (cf_parent_key fs \<mapsto> parent\<lparr>f_subtasks := f_subtasks parent @ [k]\<rparr>,
                           k \<mapsto> d),
                       next_number := Suc (next_number t')\<rparr>))))"

definition jira_assign_issue :: "key \<Rightarrow> string option \<Rightarrow> tracker \<Rightarrow> (exn + unit) \<times> tracker" where
  "jira_assign_issue k uname t =
     (case remote (AssignIssue k uname) t of
        (Some e, t') \<Rightarrow> (Inl e, t')
      | (None, t') \<Rightarrow>
          (case issues t' k of
             None \<Rightarrow> (Inl not_found, t')
           | Some d \<Rightarrow>
               (Inr (), t'\<lparr>issues := (issues t')
                  (k \<mapsto> d\<lparr>f_assignee :=
                     (case uname of None \<Rightarrow> None
                      | Some n \<Rightarrow> Some \<lparr>u_name = Some n, u_key = Some n\<rparr>)\<rparr>)\<rparr>)))"

section \<open>services/jira\_client.py: JiraClient\<close>

record current_user =
  username :: "string option"
  display_name :: "string option"
  email :: "string option"

definition get_current_user :: "tracker \<Rightarrow> (exn + current_user) \<times> tracker" where
  "get_current_user t =
     (case jira_myself t of
        (Inl e, t') \<Rightarrow> (Inl e, t')
      | (Inr me, t') \<Rightarrow>
          (let uname = py_or (m_name me) (m_key me)
           in (Inr \<lparr>username = uname,
                    display_name = (case m_displayName me of None \<Rightarrow> uname | Some d \<Rightarrow> Some d),
                    email = (case m_emailAddress me of None \<Rightarrow> Some [] | Some m \<Rightarrow> Some m)\<rparr>,
               t')))"

definition get_issue :: "key \<Rightarrow> tracker \<Rightarrow> (exn + issue) \<times> tracker" where
  "get_issue issue_key t = jira_issue issue_key t"

definition get_subtasks :: "key \<Rightarrow> tracker \<Rightarrow> (exn + key list) \<times> tracker" where
  "get_subtasks issue_key t =
     (case get_issue issue_key t of
        (Inl e, t') \<Rightarrow> (Inl e, t')
      | (Inr parent, t') \<Rightarrow> (Inr (f_subtasks (i_fields parent)), t'))"

text \<open>
  \<^verbatim>\<open>transition_issue\<close> lists the transitions the issue offers, executes the first one
  whose target status has the wanted name and answers \<^verbatim>\<open>True\<close>; it answers
  \<^verbatim>\<open>False\<close> when no such transition is offered.
\<close>

definition transition_issue :: "issue \<Rightarrow> string \<Rightarrow> tracker \<Rightarrow> (exn + bool) \<times> tracker" where
  "transition_issue iss transition_name t =
     (case jira_transitions (i_key iss) t of
        (Inl e, t1) \<Rightarrow> (Inl e, t1)
      | (Inr transitions, t1) \<Rightarrow>
          (case find (\<lambda>tr. t_to tr = transition_name) transitions of
             Some tr \<Rightarrow>
               (case jira_transition_issue (i_key iss) (t_id tr) t1 of
                  (Inl e, t2) \<Rightarrow> (Inl e, t2)
                | (Inr u, t2) \<Rightarrow> (Inr True, t2))
           | None \<Rightarrow> (Inr False, t1)))"

definition add_worklog :: "issue \<Rightarrow> string \<Rightarrow> tracker \<Rightarrow> (exn + bool) \<times> tracker" where
  "add_worklog iss time_spent t =
     (case jira_add_worklog (i_key iss) time_spent t of
        (Inl e, t') \<Rightarrow> (Inl e, t')
      | (Inr u, t') \<Rightarrow> (Inr True, t'))"

definition get_worklogs :: "issue \<Rightarrow> tracker \<Rightarrow> (exn + worklog list) \<times> tracker" where
  "get_worklogs iss t = jira_worklogs (i_key iss) t"

definition create_subtask :: "key \<Rightarrow> create_fields \<Rightarrow> tracker \<Rightarrow> (exn + issue) \<times> tracker" where
  "create_subtask parent_key fs t = jira_create_issue fs t"

definition assign_issue :: "issue \<Rightarrow> string option \<Rightarrow> tracker \<Rightarrow> (exn + bool) \<times> tracker" where
  "assign_issue iss uname t =
     (case jira_assign_issue (i_key iss) uname t of
        (Inl e, t') \<Rightarrow> (Inl e, t')
      | (Inr u, t') \<Rightarrow> (Inr True, t'))"

definition get_issue_types :: "tracker \<Rightarrow> (exn + issue_type list) \<times> tracker" where
  "get_issue_types t = jira_issue_types t"

definition get_project :: "key \<Rightarrow> tracker \<Rightarrow> (exn + project) \<times> tracker" where
  "get_project issue_key t =
     (case get_issue issue_key t of
        (Inl e, t') \<Rightarrow> (Inl e, t')
      | (Inr iss, t') \<Rightarrow>
          (Inr \<lparr>p_id = p_id (f_project (i_fields iss)), p_key = p_key (f_project (i_fields iss)),
                p_name = p_name (f_project (i_fields iss))\<rparr>, t'))"

section \<open>services/task\_processor.py: TaskProcessor\<close>

record result =
  subtask_key :: key
  current_status :: string
  actions :: "string list"
  status :: string
  message :: string
  assignee :: "string option"

record stats =
  total_count :: nat
  processed :: nat
  skipped :: nat

record batch_result =
  results :: "result list"
  summary :: stats

text \<open>
  \<^verbatim>\<open>_should_process_subtask\<close>: no assignee, no processing; otherwise the assignee's
  \<^verbatim>\<open>name\<close> (its \<^verbatim>\<open>key\<close> when the resource has no \<^verbatim>\<open>name\<close>) is compared with
  the caller's username.
\<close>

definition should_process_subtask :: "issue \<Rightarrow> string option \<Rightarrow> exn + bool" where
  "should_process_subtask subtask current_username =
     (case f_assignee (i_fields subtask) of
        None \<Rightarrow> Inr False
      | Some a \<Rightarrow>
          (case (if hasattr_name a then attr_name a else attr_key a) of
             Inl e \<Rightarrow> Inl e
           | Inr assignee_name \<Rightarrow> Inr (Some assignee_name = current_username)))"

text \<open>
  \<^verbatim>\<open>_has_worklog_by_user\<close>: the loop over the worklogs answers \<^verbatim>\<open>True\<close> at the
  first one whose author is the user.
\<close>

fun worklog_loop :: "worklog list \<Rightarrow> string option \<Rightarrow> exn + bool" where
  "worklog_loop [] uname = Inr False"
| "worklog_loop (w # ws) uname =
     (case (if hasattr_name (w_author w) then attr_name (w_author w) else attr_key (w_author w)) of
        Inl e \<Rightarrow> Inl e
      | Inr worklog_author \<Rightarrow>
          (if Some worklog_author = uname then Inr True else worklog_loop ws uname))"

definition has_worklog_by_user :: "issue \<Rightarrow> string option \<Rightarrow> tracker \<Rightarrow> (exn + bool) \<times> tracker" where
  "has_worklog_by_user subtask uname t =
     (case get_worklogs subtask t of
        (Inl e, t') \<Rightarrow> (Inl e, t')
      | (Inr worklogs, t') \<Rightarrow> (worklog_loop worklogs uname, t'))"

text \<open>
  The expression \<^verbatim>\<open>x.fields.assignee.name if x.fields.assignee else None\<close>, used for
  the skip message and for the \<^verbatim>\<open>assignee\<close> entry of a result.
\<close>

definition assignee_name_of :: "issue \<Rightarrow> exn + string option" where
  "assignee_name_of iss =
     (case f_assignee (i_fields iss) of
        None \<Rightarrow> Inr None
      | Some a \<Rightarrow> (case attr_name a of Inl e \<Rightarrow> Inl e | Inr n \<Rightarrow> Inr (Some n)))"

text \<open>
  The local variables of \<^verbatim>\<open>_process_single_subtask\<close> that its \<^verbatim>\<open>try\<close> block
  assigns: when a call raises inside the block, the handler sees them as they are at
  that moment.
\<close>

record locals =
  l_subtask :: issue
  l_current_status :: string
  l_actions :: "string list"

definition mk_result :: "locals \<Rightarrow> string \<Rightarrow> string \<Rightarrow> string option \<Rightarrow> result" where
  "mk_result l st msg who =
     \<lparr>subtask_key = i_key (l_subtask l), current_status = l_current_status l,
      actions = l_actions l, status = st, message = msg, assignee = who\<rparr>"

text \<open>Step 1 of the \<^verbatim>\<open>try\<close> block: an \<open>Open\<close> sub-task is moved to \<open>In Progress.\<close>\<close>

definition step_open :: "locals \<Rightarrow> tracker \<Rightarrow> ((exn \<times> locals) + locals) \<times> tracker" where
  "step_open l t =
     (if l_current_status l = ''Open'' then
        (case transition_issue (l_subtask l) ''In Progress.'' t of
           (Inl e, t1) \<Rightarrow> (Inl (e, l), t1)
         | (Inr True, t1) \<Rightarrow>
             (let l1 = l\<lparr>l_actions := l_actions l @ [''Moved to In Progress'']\<rparr>
              in case get_issue (i_key (l_subtask l1)) t1 of
                   (Inl e, t2) \<Rightarrow> (Inl (e, l1), t2)
                 | (Inr subtask, t2) \<Rightarrow>
                     (Inr (l1\<lparr>l_subtask := subtask, l_current_status := f_status (i_fields subtask)\<rparr>), t2))
         | (Inr False, t1) \<Rightarrow> (Inr l, t1))
      else (Inr l, t))"

text \<open>Step 2 of the \<^verbatim>\<open>try\<close> block: the worklog, unless the user already has one.\<close>

definition step_worklog :: "locals \<Rightarrow> string option \<Rightarrow> tracker \<Rightarrow> ((exn \<times> locals) + locals) \<times> tracker" where
  "step_worklog l current_username t =
     (case has_worklog_by_user (l_subtask l) current_username t of
        (Inl e, t1) \<Rightarrow> (Inl (e, l), t1)
      | (Inr False, t1) \<Rightarrow>
          (case add_worklog (l_subtask l) ''2h'' t1 of
             (Inl e, t2) \<Rightarrow> (Inl (e, l), t2)
           | (Inr u, t2) \<Rightarrow> (Inr (l\<lparr>l_actions := l_actions l @ [''Logged 2h work'']\<rparr>), t2))
      | (Inr True, t1) \<Rightarrow>
          (Inr (l\<lparr>l_actions := l_actions l @ [''Work already logged, skipped worklog'']\<rparr>), t1))"

text \<open>Step 3 of the \<^verbatim>\<open>try\<close> block: the move to \<open>Completed\<close>.\<close>

definition step_complete :: "locals \<Rightarrow> tracker \<Rightarrow> ((exn \<times> locals) + locals) \<times> tracker" where
  "step_complete l t =
     (case transition_issue (l_subtask l) ''Completed'' t of
        (Inl e, t1) \<Rightarrow> (Inl (e, l), t1)
      | (Inr True, t1) \<Rightarrow> (Inr (l\<lparr>l_actions := l_actions l @ [''Moved to Completed'']\<rparr>), t1)
      | (Inr False, t1) \<Rightarrow> (Inr l, t1))"

text \<open>
  The whole \<^verbatim>\<open>try\<close> block. Its value is \<open>Inr\<close> of the returned result, or \<open>Inl\<close> of
  the exception raised together with the local variables at the raise.
\<close>

definition try_block :: "issue \<Rightarrow> string option \<Rightarrow> string option \<Rightarrow> tracker \<Rightarrow> ((exn \<times> locals) + result) \<times> tracker" where
  "try_block subtask current_username who t =
     (case step_open \<lparr>l_subtask = subtask, l_current_status = f_status (i_fields subtask), l_actions = []\<rparr> t of
        (Inl x, t1) \<Rightarrow> (Inl x, t1)
      | (Inr l1, t1) \<Rightarrow>
          (if l_current_status l1 = ''In Progress.'' then
             (case step_worklog l1 current_username t1 of
                (Inl x, t2) \<Rightarrow> (Inl x, t2)
              | (Inr l2, t2) \<Rightarrow>
                  (case step_complete l2 t2 of
                     (Inl x, t3) \<Rightarrow> (Inl x, t3)
                   | (Inr l3, t3) \<Rightarrow> (Inr (mk_result l3 ''success'' ''Processed successfully'' who), t3)))
           else if l_current_status l1 = ''Completed'' then
             (Inr (mk_result l1 ''skipped'' ''Already Completed'' who), t1)
           else (Inr (mk_result l1 ''success'' ''Processed successfully'' who), t1)))"

text \<open>
  The handler \<^verbatim>\<open>except JIRAError as e\<close>: a provider error becomes an \<open>error\<close>
  result; any other exception leaves the function.
\<close>

fun except_JIRAError :: "exn \<Rightarrow> locals \<Rightarrow> string option \<Rightarrow> exn + result" where
  "except_JIRAError (JIRAError c txt s) l who =
     Inr (mk_result l ''error'' (''Error: '' @ format_opt txt) who)"
| "except_JIRAError e l who = Inl e"

definition process_single_subtask :: "issue \<Rightarrow> string option \<Rightarrow> tracker \<Rightarrow> (exn + result) \<times> tracker" where
  "process_single_subtask subtask current_username t =
     (case assignee_name_of subtask of
        Inl e \<Rightarrow> (Inl e, t)
      | Inr who \<Rightarrow>
          (case try_block subtask current_username who t of
             (Inr r, t') \<Rightarrow> (Inr r, t')
           | (Inl (e, l), t') \<Rightarrow> (except_JIRAError e l who, t')))"

text \<open>
  The loop of \<^verbatim>\<open>process_story_subtasks\<close> over the sub-tasks, with the result list
  and the two counters as accumulators. The fetch of the sub-task and the two reads of
  the assignee's name are outside every \<^verbatim>\<open>try\<close>: what they raise ends the loop.
\<close>

fun process_loop :: "key list \<Rightarrow> string option \<Rightarrow> result list \<times> nat \<times> nat \<Rightarrow> tracker \<Rightarrow>
    (exn + result list \<times> nat \<times> nat) \<times> tracker" where
  "process_loop [] uname acc t = (Inr acc, t)"
| "process_loop (k # ks) uname (rs, processed_count, skipped_count) t =
     (case get_issue k t of
        (Inl e, t1) \<Rightarrow> (Inl e, t1)
      | (Inr iss, t1) \<Rightarrow>
          (case should_process_subtask iss uname of
             Inl e \<Rightarrow> (Inl e, t1)
           | Inr False \<Rightarrow>
               (case assignee_name_of iss of
                  Inl e \<Rightarrow> (Inl e, t1)
                | Inr assignee_name \<Rightarrow>
                    process_loop ks uname
                      (rs @ [\<lparr>subtask_key = i_key iss, current_status = f_status (i_fields iss),
                              actions = [], status = ''skipped'',
                              message = ''Not assigned to me (assignee='' @ format_opt assignee_name @ '')'',
                              assignee = assignee_name\<rparr>],
                       processed_count, skipped_count + 1) t1)
           | Inr True \<Rightarrow>
               (case process_single_subtask iss uname t1 of
                  (Inl e, t2) \<Rightarrow> (Inl e, t2)
                | (Inr r, t2) \<Rightarrow>
                    (if status r = ''success''
                     then process_loop ks uname (rs @ [r], processed_count + 1, skipped_count) t2
                     else process_loop ks uname (rs @ [r], processed_count, skipped_count + 1) t2))))"

definition process_story_subtasks :: "key \<Rightarrow> tracker \<Rightarrow> (exn + batch_result) \<times> tracker" where
  "process_story_subtasks story_key t =
     (case get_current_user t of
        (Inl e, t1) \<Rightarrow> (Inl e, t1)
      | (Inr cu, t1) \<Rightarrow>
          (case get_subtasks story_key t1 of
             (Inl e, t2) \<Rightarrow> (Inl e, t2)
           | (Inr subtasks, t2) \<Rightarrow>
               (case process_loop subtasks (username cu) ([], 0, 0) t2 of
                  (Inl e, t3) \<Rightarrow> (Inl e, t3)
                | (Inr (rs, processed_count, skipped_count), t3) \<Rightarrow>
                    (Inr \<lparr>results = rs,
                          summary = \<lparr>total_count = length subtasks, processed = processed_count,
                                     skipped = skipped_count\<rparr>\<rparr>, t3))))"

section \<open>services/subtask\_creator.py: SubtaskCreator\<close>

definition SUBTASK_TEMPLATES :: "string list" where
  "SUBTASK_TEMPLATES =
     [''Unit Test Case Execution'',
      ''Peer Code Review'',
      ''Analysis & Understanding'',
      ''Internal Grooming among Team Members'',
      ''Dev Testing'',
      ''Unit Test Case Creation'',
      ''P0 Demo to QA and other stakeholders'']"

record creator =
  custom_field_id :: string
  custom_field_value :: string
  default_estimate :: string

record created_info =
  c_key :: "key option"
  c_summary :: string
  c_status :: string
  c_message :: string

record creation_stats =
  c_total :: nat
  c_created :: nat
  c_failed :: nat

record creation_result =
  created :: "created_info list"
  c_stats :: creation_stats

text \<open>\<^verbatim>\<open>str.lower\<close> on the ASCII letters.\<close>

definition lower_char :: "char \<Rightarrow> char" where
  "lower_char c =
     (let n = (of_char c :: nat) in if 65 \<le> n \<and> n \<le> 90 then char_of (n + 32) else c)"

definition lower :: "string \<Rightarrow> string" where
  "lower s = map lower_char s"

text \<open>
  \<^verbatim>\<open>_get_subtask_issue_type_id\<close>: the identifier of the first issue type whose name
  is \<open>sub-task\<close> in any letter case, or \<^verbatim>\<open>None\<close>.
\<close>

definition get_subtask_issue_type_id :: "tracker \<Rightarrow> (exn + string option) \<times> tracker" where
  "get_subtask_issue_type_id t =
     (case get_issue_types t of
        (Inl e, t') \<Rightarrow> (Inl e, t')
      | (Inr types, t') \<Rightarrow>
          (case find (\<lambda>ty. lower (it_name ty) = ''sub-task'') types of
             Some ty \<Rightarrow> (Inr (Some (it_id ty)), t')
           | None \<Rightarrow> (Inr None, t')))"

text \<open>
  \<^verbatim>\<open>_create_single_subtask\<close>: build the fields, create the sub-task, then assign it
  to the caller in a second call. Nothing is caught here.
\<close>

definition create_single_subtask :: "creator \<Rightarrow> key \<Rightarrow> string \<Rightarrow> string \<Rightarrow> string \<Rightarrow> string option \<Rightarrow>
    tracker \<Rightarrow> (exn + created_info) \<times> tracker" where
  "create_single_subtask self parent_key summ project_id issue_type_id uname t =
     (let fs = \<lparr>cf_project_id = project_id, cf_parent_key = parent_key, cf_summary = summ,
                cf_description = summ, cf_issuetype_id = issue_type_id,
                cf_originalEstimate = default_estimate self,
                cf_custom = (custom_field_id self, custom_field_value self)\<rparr>
      in case create_subtask parent_key fs t of
           (Inl e, t1) \<Rightarrow> (Inl e, t1)
         | (Inr iss, t1) \<Rightarrow>
             (case assign_issue iss uname t1 of
                (Inl e, t2) \<Rightarrow> (Inl e, t2)
              | (Inr u, t2) \<Rightarrow>
                  (Inr \<lparr>c_key = Some (i_key iss), c_summary = summ, c_status = ''success'',
                        c_message = ''Created and assigned to '' @ format_opt uname\<rparr>, t2)))"

text \<open>
  The loop of \<^verbatim>\<open>create_subtasks\<close> over the templates, with the list of entries and
  the failure counter as accumulators; \<^verbatim>\<open>except Exception\<close> catches everything the
  attempt raises.
\<close>

fun create_loop :: "creator \<Rightarrow> key \<Rightarrow> string list \<Rightarrow> string \<Rightarrow> string \<Rightarrow> string option \<Rightarrow>
    created_info list \<times> nat \<Rightarrow> tracker \<Rightarrow> (created_info list \<times> nat) \<times> tracker" where
  "create_loop self story_key [] project_id type_id uname acc t = (acc, t)"
| "create_loop self story_key (summ # rest) project_id type_id uname (entries, failed_count) t =
     (case create_single_subtask self story_key summ project_id type_id uname t of
        (Inr r, t') \<Rightarrow>
          create_loop self story_key rest project_id type_id uname (entries @ [r], failed_count) t'
      | (Inl e, t') \<Rightarrow>
          create_loop self story_key rest project_id type_id uname
            (entries @ [\<lparr>c_key = None, c_summary = summ, c_status = ''error'', c_message = str e\<rparr>],
             failed_count + 1) t')"

text \<open>
  \<^verbatim>\<open>create_subtasks\<close>. The test \<^verbatim>\<open>if not subtask_issue_type_id\<close> is true for
  \<^verbatim>\<open>None\<close> and for the empty string; the three lookups before the loop are outside
  every \<^verbatim>\<open>try\<close>.
\<close>

definition create_subtasks :: "creator \<Rightarrow> key \<Rightarrow> tracker \<Rightarrow> (exn + creation_result) \<times> tracker" where
  "create_subtasks self story_key t =
     (case get_current_user t of
        (Inl e, t1) \<Rightarrow> (Inl e, t1)
      | (Inr cu, t1) \<Rightarrow>
          (case get_subtask_issue_type_id t1 of
             (Inl e, t2) \<Rightarrow> (Inl e, t2)
           | (Inr subtask_issue_type_id, t2) \<Rightarrow>
               (case (if truthy subtask_issue_type_id then subtask_issue_type_id else None) of
                  None \<Rightarrow> (Inl (Exception ''Sub-task issue type not found''), t2)
                | Some type_id \<Rightarrow>
                    (case get_project story_key t2 of
                       (Inl e, t3) \<Rightarrow> (Inl e, t3)
                     | (Inr proj, t3) \<Rightarrow>
                         (case create_loop self story_key SUBTASK_TEMPLATES (p_id proj)
                                 type_id (username cu) ([], 0) t3 of
                            ((entries, failed_count), t4) \<Rightarrow>
                              (Inr \<lparr>created = entries,
                                    c_stats = \<lparr>c_total = length SUBTASK_TEMPLATES,
                                               c_created = length SUBTASK_TEMPLATES - failed_count,
                                               c_failed = failed_count\<rparr>\<rparr>, t4))))))"

section \<open>Notions used in the statements\<close>

text \<open>The next \<open>n\<close> remote calls do not fail on their own.\<close>

fun quiet :: "nat \<Rightarrow> exn option list \<Rightarrow> bool" where
  "quiet 0 fs = True"
| "quiet (Suc n) [] = True"
| "quiet (Suc n) (f # fs) = (f = None \<and> quiet n fs)"

definition no_fault :: "nat \<Rightarrow> tracker \<Rightarrow> bool" where
  "no_fault n t = quiet n (faults t)"

text \<open>Issue \<open>k\<close>, when in status \<open>s\<close>, offers a transition to the status \<open>target\<close>.\<close>

definition offers :: "tracker \<Rightarrow> key \<Rightarrow> string \<Rightarrow> string \<Rightarrow> bool" where
  "offers t k s target = (find (\<lambda>tr. t_to tr = target) (workflow t k s) \<noteq> None)"

text \<open>The transitions an issue offers in one status have different identifiers.\<close>

definition unique_ids :: "tracker \<Rightarrow> bool" where
  "unique_ids t = (\<forall>k s. distinct (map t_id (workflow t k s)))"

text \<open>The order \<open>Open\<close>, \<open>In Progress.\<close>, \<open>Completed\<close> of the three workflow states.\<close>

definition rank :: "string \<Rightarrow> nat option" where
  "rank s =
     (if s = ''Open'' then Some 0
      else if s = ''In Progress.'' then Some 1
      else if s = ''Completed'' then Some 2
      else None)"

definition forward :: "string \<Rightarrow> string \<Rightarrow> bool" where
  "forward s s' = (case (rank s, rank s') of (Some a, Some b) \<Rightarrow> a < b | _ \<Rightarrow> False)"

text \<open>
  Between two states of the tracker, every issue is still there, only its status may
  differ, and the status is the same or further along the order.
\<close>

definition moved_on :: "issue_data \<Rightarrow> issue_data \<Rightarrow> bool" where
  "moved_on d d' =
     (d' = d\<lparr>f_status := f_status d'\<rparr> \<and>
      (f_status d' = f_status d \<or> forward (f_status d) (f_status d')))"

definition progress :: "tracker \<Rightarrow> tracker \<Rightarrow> bool" where
  "progress t t' =
     (workflow t' = workflow t \<and> myself_info t' = myself_info t \<and>
      (\<forall>k d. issues t k = Some d \<longrightarrow> (\<exists>d'. issues t' k = Some d' \<and> moved_on d d')))"

text \<open>The statuses of the issues have not moved backward.\<close>

definition advanced :: "tracker \<Rightarrow> tracker \<Rightarrow> bool" where
  "advanced t t' =
     (\<forall>k d. issues t k = Some d \<longrightarrow>
        (\<exists>d'. issues t' k = Some d' \<and>
           (f_status d' = f_status d \<or> forward (f_status d) (f_status d'))))"

text \<open>The local copy of the sub-task is what the tracker holds.\<close>

definition consistent :: "locals \<Rightarrow> tracker \<Rightarrow> bool" where
  "consistent l t =
     (issues t (i_key (l_subtask l)) = Some (i_fields (l_subtask l)) \<and>
      l_current_status l = f_status (i_fields (l_subtask l)))"

text \<open>
  The outcomes of the attempts of the creation loop, one per template, each attempt
  running on the tracker the one before left.
\<close>

fun attempt_outcomes :: "creator \<Rightarrow> key \<Rightarrow> string list \<Rightarrow> string \<Rightarrow> string \<Rightarrow> string option \<Rightarrow>
    tracker \<Rightarrow> (exn + created_info) list" where
  "attempt_outcomes self story_key [] project_id type_id uname t = []"
| "attempt_outcomes self story_key (summ # rest) project_id type_id uname t =
     (case create_single_subtask self story_key summ project_id type_id uname t of
        (r, t') \<Rightarrow> r # attempt_outcomes self story_key rest project_id type_id uname t')"

text \<open>The entry the creation loop records for a template and the outcome of its attempt.\<close>

definition entry_of :: "string \<Rightarrow> exn + created_info \<Rightarrow> created_info" where
  "entry_of summ outcome =
     (case outcome of
        Inr r \<Rightarrow> r
      | Inl e \<Rightarrow> \<lparr>c_key = None, c_summary = summ, c_status = ''error'', c_message = str e\<rparr>)"

text \<open>The summaries of the creation calls in a call log, in order.\<close>

fun creation_calls :: "call list \<Rightarrow> string list" where
  "creation_calls [] = []"
| "creation_calls (CreateIssue fs # cs) = cf_summary fs # creation_calls cs"
| "creation_calls (c # cs) = creation_calls cs"

section \<open>An example tracker\<close>

definition alice :: user where
  "alice = \<lparr>u_name = Some ''alice'', u_key = Some ''JIRAUSER1''\<rparr>"

definition bob :: user where
  "bob = \<lparr>u_name = Some ''bob'', u_key = Some ''JIRAUSER2''\<rparr>"

definition proj :: project where
  "proj = \<lparr>p_id = ''10001'', p_key = ''PROJ'', p_name = ''Project''\<rparr>"

definition demo_workflow :: "key \<Rightarrow> string \<Rightarrow> transition list" where
  "demo_workflow k s =
     (if s = ''Open'' then [\<lparr>t_id = ''11'', t_to = ''In Progress.''\<rparr>]
      else if s = ''In Progress.'' then
        [\<lparr>t_id = ''21'', t_to = ''Open''\<rparr>, \<lparr>t_id = ''31'', t_to = ''Completed''\<rparr>]
      else if s = ''Completed'' then [\<lparr>t_id = ''41'', t_to = ''Open''\<rparr>]
      else [])"

definition sub :: "string \<Rightarrow> user option \<Rightarrow> issue_data" where
  "sub s who = \<lparr>f_status = s, f_assignee = who, f_subtasks = [], f_project = proj\<rparr>"

definition demo :: tracker where
  "demo =
     \<lparr>myself_info = \<lparr>m_name = Some ''alice'', m_key = Some ''JIRAUSER1'',
                      m_displayName = Some ''Alice'', m_emailAddress = None\<rparr>,
      issues = map_of
        [(''PROJ-1'', \<lparr>f_status = ''Open'', f_assignee = Some bob,
                        f_subtasks = [''PROJ-2'', ''PROJ-3'', ''PROJ-4'', ''PROJ-5'', ''PROJ-6''],
                        f_project = proj\<rparr>),
         (''PROJ-2'', sub ''Open'' (Some alice)),
         (''PROJ-3'', sub ''Completed'' (Some alice)),
         (''PROJ-4'', sub ''Open'' (Some bob)),
         (''PROJ-5'', sub ''In Progress.'' (Some alice)),
         (''PROJ-6'', sub ''Blocked'' None)],
      worklog_store = (\<lambda>k. if k = ''PROJ-5'' then [\<lparr>w_author = alice, w_timeSpent = ''1h''\<rparr>] else []),
      workflow = demo_workflow,
      issue_types = [\<lparr>it_id = ''1'', it_name = ''Story''\<rparr>, \<lparr>it_id = ''5'', it_name = ''Sub-Task''\<rparr>],
      next_number = 7,
      faults = [],
      calls = []\<rparr>"

text \<open>The same tracker with a workflow that offers no transition at all.\<close>

definition stuck :: tracker where
  "stuck = demo\<lparr>workflow := (\<lambda>k s. [])\<rparr>"

text \<open>The same tracker, on which the sixth remote call to come is rejected.\<close>

definition failing :: tracker where
  "failing = demo\<lparr>faults := [None, None, None, None, None, Some bad_request]\<rparr>"

text \<open>The same tracker, on which the eighth remote call to come is rejected.\<close>

definition failing_later :: tracker where
  "failing_later = demo\<lparr>faults := [None, None, None, None, None, None, None, Some bad_request]\<rparr>"

text \<open>The same tracker, on which the second remote call to come is rejected.\<close>

definition failing_assign :: tracker where
  "failing_assign = demo\<lparr>faults := [None, Some bad_request]\<rparr>"

text \<open>The same tracker, on which the seventh remote call to come is rejected.\<close>

definition failing_last :: tracker where
  "failing_last = demo\<lparr>faults := [None, None, None, None, None, None, Some bad_request]\<rparr>"

text \<open>
  The same tracker, where the fourth sub-task is assigned to a user whose resource has a
  \<^verbatim>\<open>key\<close> and no \<^verbatim>\<open>name\<close>.
\<close>

definition carol :: user where
  "carol = \<lparr>u_name = None, u_key = Some ''JIRAUSER3''\<rparr>"

definition key_only :: tracker where
  "key_only = demo\<lparr>issues := (issues demo)(''PROJ-4'' \<mapsto> sub ''Open'' (Some carol))\<rparr>"

text \<open>
  The same tracker with a workflow that lists, for an \<open>Open\<close> issue, two transitions
  under one identifier: the move to \<open>In Progress.\<close>, executed by that identifier,
  lands in \<open>Completed\<close>, and the issue read again is \<open>Completed\<close>.
\<close>

definition jumpy :: tracker where
  "jumpy = demo\<lparr>workflow :=
     (\<lambda>k s. if s = ''Open''
            then [\<lparr>t_id = ''11'', t_to = ''Completed''\<rparr>, \<lparr>t_id = ''11'', t_to = ''In Progress.''\<rparr>]
            else [])\<rparr>"

text \<open>The same tracker, on which the remote call number \<open>i\<close> to come, counted from 0, is rejected.\<close>

definition failing_at :: "nat \<Rightarrow> tracker" where
  "failing_at i = demo\<lparr>faults := replicate i None @ [Some bad_request]\<rparr>"

definition demo_creator :: creator where
  "demo_creator =
     \<lparr>custom_field_id = ''customfield_10111'', custom_field_value = ''Platform Comm Mgmt'',
      default_estimate = ''2h''\<rparr>"

section \<open>The tracker's calls\<close>

lemma tick_fields [simp]:
  "myself_info (tick c t) = myself_info t"
  "issues (tick c t) = issues t"
  "worklog_store (tick c t) = worklog_store t"
  "workflow (tick c t) = workflow t"
  "issue_types (tick c t) = issue_types t"
  "next_number (tick c t) = next_number t"
  "faults (tick c t) = tl (faults t)"
  "calls (tick c t) = calls t @ [c]"
  by (simp_all add: tick_def)

lemma quiet_Nil [simp]: "quiet n []"
  by (cases n) simp_all

lemma quiet_Suc: "quiet (Suc n) fs \<Longrightarrow> next_fault fs = None \<and> quiet n (tl fs)"
  by (cases fs) simp_all

lemma quiet_mono: "quiet n fs \<Longrightarrow> m \<le> n \<Longrightarrow> quiet m fs"
proof (induction n fs arbitrary: m rule: quiet.induct)
  case (1 fs)
  then show ?case by simp
next
  case (2 n)
  then show ?case by (cases m) simp_all
next
  case (3 n f fs)
  then show ?case by (cases m) simp_all
qed

lemma no_fault_next: "no_fault (Suc n) t \<Longrightarrow> next_fault (faults t) = None"
  by (simp add: no_fault_def quiet_Suc)

lemma no_fault_tick: "no_fault (Suc n) t \<Longrightarrow> no_fault n (tick c t)"
  by (simp add: no_fault_def quiet_Suc)

lemma no_fault_issues [simp]: "no_fault n (t\<lparr>issues := x\<rparr>) = no_fault n t"
  by (simp add: no_fault_def)

lemma no_fault_worklog_store [simp]: "no_fault n (t\<lparr>worklog_store := x\<rparr>) = no_fault n t"
  by (simp add: no_fault_def)

lemma no_fault_mono: "no_fault n t \<Longrightarrow> m \<le> n \<Longrightarrow> no_fault m t"
  by (simp add: no_fault_def quiet_mono)

lemma get_issue_ok:
  "no_fault (Suc n) t \<Longrightarrow> issues t k = Some d \<Longrightarrow>
   get_issue k t = (Inr \<lparr>i_key = k, i_fields = d\<rparr>, tick (GetIssue k) t)"
  by (simp add: get_issue_def jira_issue_def remote_def no_fault_next)

lemma get_issue_Inr:
  "get_issue k t = (Inr iss, t') \<Longrightarrow>
   t' = tick (GetIssue k) t \<and> i_key iss = k \<and> issues t k = Some (i_fields iss)"
  by (auto simp: get_issue_def jira_issue_def remote_def split: option.splits)

lemma get_issue_snd: "snd (get_issue k t) = tick (GetIssue k) t"
  by (simp add: get_issue_def jira_issue_def remote_def split: option.splits)

lemma find_by_id:
  "distinct (map t_id ts) \<Longrightarrow> find P ts = Some tr \<Longrightarrow> find (\<lambda>x. t_id x = t_id tr) ts = Some tr"
proof (induction ts)
  case Nil
  then show ?case by simp
next
  case (Cons a ts)
  show ?case
  proof (cases "P a")
    case True
    with Cons.prems show ?thesis by simp
  next
    case False
    with Cons.prems have f: "find P ts = Some tr" and d: "distinct (map t_id ts)"
      and na: "t_id a \<notin> t_id ` set ts" by simp_all
    from f have "tr \<in> set ts" by (auto simp: find_Some_iff)
    with na have "t_id a \<noteq> t_id tr" by auto
    with Cons.IH [OF d f] show ?thesis by simp
  qed
qed

lemma find_to_target: "find (\<lambda>tr. t_to tr = name) ts = Some tr \<Longrightarrow> t_to tr = name"
  by (auto simp: find_Some_iff)

lemma transition_issue_ok:
  assumes "no_fault (Suc (Suc n)) t" and "issues t (i_key iss) = Some d"
    and "offers t (i_key iss) (f_status d) name" and "unique_ids t"
  shows "\<exists>tr::transition. transition_issue iss name t =
           (Inr True, (tick (TransitionIssue (i_key iss) (t_id tr)) (tick (Transitions (i_key iss)) t))
              \<lparr>issues := (issues t)(i_key iss \<mapsto> d\<lparr>f_status := name\<rparr>)\<rparr>)"
proof -
  from assms(3) obtain tr where f: "find (\<lambda>tr. t_to tr = name) (workflow t (i_key iss) (f_status d)) = Some tr"
    by (auto simp: offers_def)
  from assms(4) have "distinct (map t_id (workflow t (i_key iss) (f_status d)))"
    by (simp add: unique_ids_def)
  then have g: "find (\<lambda>x. t_id x = t_id tr) (workflow t (i_key iss) (f_status d)) = Some tr"
    using f by (rule find_by_id)
  have n1: "next_fault (faults t) = None"
    using assms(1) by (rule no_fault_next)
  have n2: "next_fault (tl (faults t)) = None"
    using no_fault_next [OF no_fault_tick [OF assms(1)]] by simp
  have "transition_issue iss name t =
           (Inr True, (tick (TransitionIssue (i_key iss) (t_id tr)) (tick (Transitions (i_key iss)) t))
              \<lparr>issues := (issues t)(i_key iss \<mapsto> d\<lparr>f_status := name\<rparr>)\<rparr>)"
    using f g n1 n2 assms(2) find_to_target [OF f]
    by (simp add: transition_issue_def jira_transitions_def jira_transition_issue_def remote_def)
  then show ?thesis by blast
qed

lemma transition_issue_not_offered:
  assumes "no_fault (Suc n) t" and "issues t (i_key iss) = Some d"
    and "\<not> offers t (i_key iss) (f_status d) name"
  shows "transition_issue iss name t = (Inr False, tick (Transitions (i_key iss)) t)"
  using assms no_fault_next [of n t]
  by (simp add: transition_issue_def jira_transitions_def remote_def offers_def)

lemma has_worklog_by_user_ok:
  "no_fault (Suc n) t \<Longrightarrow> issues t (i_key iss) = Some d \<Longrightarrow>
   has_worklog_by_user iss uname t
     = (worklog_loop (worklog_store t (i_key iss)) uname, tick (Worklogs (i_key iss)) t)"
  by (simp add: has_worklog_by_user_def get_worklogs_def jira_worklogs_def remote_def no_fault_next)

lemma add_worklog_ok:
  "no_fault (Suc n) t \<Longrightarrow> issues t (i_key iss) = Some d \<Longrightarrow>
   add_worklog iss ts t
     = (Inr True, (tick (AddWorklog (i_key iss) ts) t)
          \<lparr>worklog_store := (worklog_store t)
             (i_key iss := worklog_store t (i_key iss) @
                [\<lparr>w_author = \<lparr>u_name = m_name (myself_info t), u_key = m_key (myself_info t)\<rparr>,
                  w_timeSpent = ts\<rparr>])\<rparr>)"
  by (simp add: add_worklog_def jira_add_worklog_def remote_def no_fault_next)

lemma unique_ids_frame [simp]:
  "unique_ids (tick c t) = unique_ids t"
  "unique_ids (t\<lparr>issues := x\<rparr>) = unique_ids t"
  "unique_ids (t\<lparr>worklog_store := y\<rparr>) = unique_ids t"
  by (simp_all add: unique_ids_def)

lemma offers_frame [simp]:
  "offers (tick c t) = offers t"
  "offers (t\<lparr>issues := x\<rparr>) = offers t"
  "offers (t\<lparr>worklog_store := y\<rparr>) = offers t"
  by (simp_all add: offers_def fun_eq_iff)

section \<open>Progress\<close>

lemma forward_trans: "forward a b \<Longrightarrow> forward b c \<Longrightarrow> forward a c"
  by (auto simp: forward_def split: option.splits)

lemma moved_on_refl [simp]: "moved_on d d"
  by (simp add: moved_on_def)

lemma moved_on_trans: "moved_on a b \<Longrightarrow> moved_on b c \<Longrightarrow> moved_on a c"
  unfolding moved_on_def
  by (metis (no_types, lifting) forward_trans issue_data.surjective issue_data.update_convs(1))

lemma progress_refl [simp]: "progress t t"
  by (simp add: progress_def)

lemma progress_trans: "progress a b \<Longrightarrow> progress b c \<Longrightarrow> progress a c"
  unfolding progress_def by (auto intro: moved_on_trans) (meson moved_on_trans)

lemma progress_tick [simp]: "progress t (tick c t)"
  by (simp add: progress_def)

lemma progress_unique_ids: "progress t t' \<Longrightarrow> unique_ids t \<Longrightarrow> unique_ids t'"
  by (simp add: progress_def unique_ids_def)

lemma progress_advanced: "progress t t' \<Longrightarrow> advanced t t'"
  unfolding progress_def advanced_def moved_on_def by blast

section \<open>Facts about the example tracker\<close>

lemma demo_fields [simp]:
  "faults demo = []"
  "calls demo = []"
  "workflow demo = demo_workflow"
  "m_name (myself_info demo) = Some ''alice''"
  "m_key (myself_info demo) = Some ''JIRAUSER1''"
  by (simp_all add: demo_def)

lemma demo_issues [simp]:
  "issues demo ''PROJ-2'' = Some (sub ''Open'' (Some alice))"
  "issues demo ''PROJ-3'' = Some (sub ''Completed'' (Some alice))"
  "issues demo ''PROJ-4'' = Some (sub ''Open'' (Some bob))"
  "issues demo ''PROJ-5'' = Some (sub ''In Progress.'' (Some alice))"
  "issues demo ''PROJ-6'' = Some (sub ''Blocked'' None)"
  by (simp_all add: demo_def)

lemma demo_worklogs [simp]:
  "worklog_store demo ''PROJ-2'' = []"
  "worklog_store demo ''PROJ-5'' = [\<lparr>w_author = alice, w_timeSpent = ''1h''\<rparr>]"
  by (simp_all add: demo_def)

lemma demo_unique_ids [simp]: "unique_ids demo"
  by (simp add: unique_ids_def demo_workflow_def)

lemma demo_no_fault [simp]: "no_fault n demo"
  by (simp add: no_fault_def)

lemma demo_offers [simp]:
  "offers demo k ''Open'' ''In Progress.''"
  "offers demo k ''In Progress.'' ''Completed''"
  by (simp_all add: offers_def demo_workflow_def)

lemma sub_fields [simp]:
  "f_status (sub s who) = s"
  "f_assignee (sub s who) = who"
  "f_subtasks (sub s who) = []"
  by (simp_all add: sub_def)

lemma users [simp]:
  "u_name alice = Some ''alice''"
  "u_name bob = Some ''bob''"
  by (simp_all add: alice_def bob_def)

section \<open>The advancement of one sub-task\<close>

text \<open>
  C1. A sub-task assigned to the caller and observed in \<open>Open\<close>, on a tracker that
  offers the move to \<open>In Progress.\<close> and then the move to \<open>Completed\<close>, holds no
  worklog of the caller and lets the seven remote calls of the run succeed: the result
  has exactly the three actions, in this order, and the outcome \<open>success\<close>.
\<close>

theorem open_to_completed:
  assumes snap: "issues t k = Some d"
    and st: "f_status d = ''Open''"
    and mine: "f_assignee d = Some a" "u_name a = Some n" "uname = Some n"
    and off1: "offers t k ''Open'' ''In Progress.''"
    and off2: "offers t k ''In Progress.'' ''Completed''"
    and ids: "unique_ids t"
    and nolog: "worklog_loop (worklog_store t k) uname = Inr False"
    and nf: "no_fault 7 t"
  shows "fst (process_single_subtask \<lparr>i_key = k, i_fields = d\<rparr> uname t) =
           Inr \<lparr>subtask_key = k, current_status = ''In Progress.'',
                actions = [''Moved to In Progress'', ''Logged 2h work'', ''Moved to Completed''],
                status = ''success'', message = ''Processed successfully'',
                assignee = Some n\<rparr>"
proof -
  let ?iss = "\<lparr>i_key = k, i_fields = d\<rparr>"
  let ?d1 = "d\<lparr>f_status := ''In Progress.''\<rparr>"
  let ?iss1 = "\<lparr>i_key = k, i_fields = ?d1\<rparr>"
  let ?l0 = "\<lparr>l_subtask = ?iss, l_current_status = f_status d, l_actions = []\<rparr>"
  let ?l1 = "\<lparr>l_subtask = ?iss1, l_current_status = ''In Progress.'',
              l_actions = [''Moved to In Progress'']\<rparr>"
  let ?l2 = "?l1\<lparr>l_actions := [''Moved to In Progress'', ''Logged 2h work'']\<rparr>"
  let ?l3 = "?l1\<lparr>l_actions := [''Moved to In Progress'', ''Logged 2h work'', ''Moved to Completed'']\<rparr>"
  have who: "assignee_name_of ?iss = Inr (Some n)"
    using mine by (simp add: assignee_name_of_def attr_name_def)
  have nf7: "no_fault (Suc (Suc (Suc (Suc (Suc (Suc (Suc 0))))))) t"
    using nf by (simp add: eval_nat_numeral)
  obtain tr1 :: transition where s1: "transition_issue ?iss ''In Progress.'' t =
      (Inr True, (tick (TransitionIssue k (t_id tr1)) (tick (Transitions k) t))
         \<lparr>issues := (issues t)(k \<mapsto> ?d1)\<rparr>)" (is "_ = (_, ?t1)")
    using transition_issue_ok [OF nf7, of ?iss d "''In Progress.''"] snap st off1 ids by auto
  have nf5: "no_fault (Suc (Suc (Suc (Suc (Suc 0))))) ?t1"
    using nf7 by (simp add: no_fault_tick)
  have s2: "get_issue k ?t1 = (Inr ?iss1, tick (GetIssue k) ?t1)" (is "_ = (_, ?t2)")
    using nf5 by (rule get_issue_ok) simp
  have open1: "step_open ?l0 t = (Inr ?l1, ?t2)"
    using st s1 s2 by (simp add: step_open_def)
  have nf4: "no_fault (Suc (Suc (Suc (Suc 0)))) ?t2"
    using nf5 by (rule no_fault_tick)
  have s3: "has_worklog_by_user ?iss1 uname ?t2 = (Inr False, tick (Worklogs k) ?t2)" (is "_ = (_, ?t3)")
    using has_worklog_by_user_ok [OF nf4, of ?iss1 ?d1 uname] nolog by simp
  have nf3: "no_fault (Suc (Suc (Suc 0))) ?t3"
    using nf4 by (rule no_fault_tick)
  obtain t4 where s4: "add_worklog ?iss1 ''2h'' ?t3 = (Inr True, t4)"
    and t4: "t4 = (tick (AddWorklog k ''2h'') ?t3)\<lparr>worklog_store := worklog_store t4\<rparr>"
    using add_worklog_ok [OF nf3, of ?iss1 ?d1 "''2h''"] by simp
  have log2: "step_worklog ?l1 uname ?t2 = (Inr ?l2, t4)"
    using s3 s4 by (simp add: step_worklog_def)
  have nf2: "no_fault (Suc (Suc 0)) t4"
    using no_fault_tick [OF nf3, of "AddWorklog k ''2h''"] by (subst t4) simp
  have i4: "issues t4 k = Some ?d1" by (subst t4) simp
  have o4: "offers t4 k ''In Progress.'' ''Completed''" using off2 by (subst t4) simp
  have u4: "unique_ids t4" using ids by (subst t4) simp
  obtain t5 where s5: "transition_issue ?iss1 ''Completed'' t4 = (Inr True, t5)"
    using transition_issue_ok [OF nf2, of ?iss1 ?d1 "''Completed''"] i4 o4 u4 by auto
  have done3: "step_complete ?l2 t4 = (Inr ?l3, t5)"
    using s5 by (simp add: step_complete_def)
  have "try_block ?iss uname (Some n) t =
      (Inr (mk_result ?l3 ''success'' ''Processed successfully'' (Some n)), t5)"
    using open1 log2 done3 by (simp add: try_block_def)
  then show ?thesis
    using who by (simp add: process_single_subtask_def mk_result_def)
qed

theorem open_to_completed_witness:
  "issues demo ''PROJ-2'' = Some (sub ''Open'' (Some alice)) \<and>
   offers demo ''PROJ-2'' ''Open'' ''In Progress.'' \<and>
   offers demo ''PROJ-2'' ''In Progress.'' ''Completed'' \<and>
   worklog_loop (worklog_store demo ''PROJ-2'') (Some ''alice'') = Inr False \<and>
   no_fault 7 demo \<and>
   fst (process_single_subtask \<lparr>i_key = ''PROJ-2'', i_fields = sub ''Open'' (Some alice)\<rparr>
          (Some ''alice'') demo) =
     Inr \<lparr>subtask_key = ''PROJ-2'', current_status = ''In Progress.'',
          actions = [''Moved to In Progress'', ''Logged 2h work'', ''Moved to Completed''],
          status = ''success'', message = ''Processed successfully'',
          assignee = Some ''alice''\<rparr>"
  using open_to_completed [of demo "''PROJ-2''" "sub ''Open'' (Some alice)" alice "''alice''" "Some ''alice''"]
  by simp

section \<open>What one call can do to the tracker\<close>

lemma transition_issue_cases:
  assumes "transition_issue iss name t = (r, t')" and "unique_ids t"
  shows "workflow t' = workflow t \<and> myself_info t' = myself_info t \<and>
         worklog_store t' = worklog_store t \<and>
         (if r = Inr True
          then \<exists>d. issues t (i_key iss) = Some d \<and>
                 issues t' = (issues t)(i_key iss \<mapsto> d\<lparr>f_status := name\<rparr>)
          else issues t' = issues t)"
proof (cases "jira_transitions (i_key iss) t")
  case (Pair r1 t1)
  have t1: "t1 = tick (Transitions (i_key iss)) t"
    using Pair by (auto simp: jira_transitions_def remote_def split: option.splits)
  show ?thesis
  proof (cases r1)
    case (Inl e)
    with Pair assms(1) t1 show ?thesis by (auto simp: transition_issue_def)
  next
    case (Inr ts)
    with Pair obtain d where d: "issues t (i_key iss) = Some d"
      and ts: "ts = workflow t (i_key iss) (f_status d)"
      by (auto simp: jira_transitions_def remote_def split: option.splits)
    show ?thesis
    proof (cases "find (\<lambda>tr. t_to tr = name) ts")
      case None
      with Pair Inr assms(1) t1 show ?thesis by (auto simp: transition_issue_def)
    next
      case (Some tr)
      from assms(2) have "distinct (map t_id ts)" by (simp add: ts unique_ids_def)
      then have g: "find (\<lambda>x. t_id x = t_id tr) ts = Some tr"
        using Some by (rule find_by_id)
      have to: "t_to tr = name" using Some by (rule find_to_target)
      show ?thesis
        using Pair Inr Some assms(1) t1 d ts g to
        by (auto simp: transition_issue_def jira_transition_issue_def remote_def
            split: option.splits)
    qed
  qed
qed

lemma has_worklog_by_user_snd:
  "snd (has_worklog_by_user iss uname t) = tick (Worklogs (i_key iss)) t"
  by (simp add: has_worklog_by_user_def get_worklogs_def jira_worklogs_def remote_def
      split: option.splits)

lemma add_worklog_frame:
  "add_worklog iss ts t = (r, t') \<Longrightarrow>
   workflow t' = workflow t \<and> myself_info t' = myself_info t \<and> issues t' = issues t"
  by (auto simp: add_worklog_def jira_add_worklog_def remote_def split: option.splits)

lemma progress_same_issues:
  "workflow t' = workflow t \<Longrightarrow> myself_info t' = myself_info t \<Longrightarrow> issues t' = issues t \<Longrightarrow>
   progress t t'"
  by (simp add: progress_def)

lemma progress_move:
  assumes "workflow t' = workflow t" and "myself_info t' = myself_info t"
    and "issues t k = Some d" and "issues t' = (issues t)(k \<mapsto> d\<lparr>f_status := s\<rparr>)"
    and "forward (f_status d) s"
  shows "progress t t'"
  using assms by (auto simp: progress_def moved_on_def)

lemma forward_steps [simp]:
  "forward ''Open'' ''In Progress.''"
  "forward ''In Progress.'' ''Completed''"
  by (simp_all add: forward_def rank_def)

section \<open>The steps of the try block\<close>

lemma step_open_cases:
  assumes "step_open l t = (r, t')" and "unique_ids t" and "consistent l t"
  shows "progress t t' \<and>
         (case r of
            Inl (e, l') \<Rightarrow>
              i_key (l_subtask l') = i_key (l_subtask l) \<and>
              l_current_status l' = l_current_status l \<and>
              (l_actions l' = l_actions l \<or>
               l_current_status l = ''Open'' \<and> l_actions l' = l_actions l @ [''Moved to In Progress''])
          | Inr l' \<Rightarrow>
              consistent l' t' \<and> i_key (l_subtask l') = i_key (l_subtask l) \<and>
              (l' = l \<or>
               l_current_status l = ''Open'' \<and>
               l_current_status l' = ''In Progress.'' \<and>
               i_fields (l_subtask l') = (i_fields (l_subtask l))\<lparr>f_status := ''In Progress.''\<rparr> \<and>
               l_actions l' = l_actions l @ [''Moved to In Progress'']))"
proof (cases "l_current_status l = ''Open''")
  case False
  with assms show ?thesis by (auto simp: step_open_def)
next
  case True
  obtain r1 t1 where tr: "transition_issue (l_subtask l) ''In Progress.'' t = (r1, t1)"
    by (cases "transition_issue (l_subtask l) ''In Progress.'' t")
  note c = transition_issue_cases [OF tr assms(2)]
  show ?thesis
  proof (cases "r1 = Inr True")
    case False
    with c have p: "progress t t1" and same: "issues t1 = issues t"
      by (simp_all add: progress_same_issues)
    from False tr True assms(1) have "t' = t1"
      and "r = Inr l \<or> (\<exists>e. r = Inl (e, l))"
      by (auto simp: step_open_def split: sum.splits bool.splits)
    with p same assms(3) show ?thesis by (auto simp: consistent_def)
  next
    case moved: True
    with c obtain d where d: "issues t (i_key (l_subtask l)) = Some d"
      and i1: "issues t1 = (issues t)(i_key (l_subtask l) \<mapsto> d\<lparr>f_status := ''In Progress.''\<rparr>)"
      by auto
    from assms(3) d True have dd: "d = i_fields (l_subtask l)" and "f_status d = ''Open''"
      by (auto simp: consistent_def)
    then have p1: "progress t t1"
      using c d i1 by (intro progress_move [where k="i_key (l_subtask l)" and d=d]) auto
    have p2: "progress t1 (tick (GetIssue (i_key (l_subtask l))) t1)" by simp
    have t': "t' = tick (GetIssue (i_key (l_subtask l))) t1"
      using assms(1) True tr moved get_issue_snd [of "i_key (l_subtask l)" t1]
      by (auto simp: step_open_def Let_def split: prod.splits sum.splits)
    have p: "progress t t'" using p1 p2 unfolding t' by (rule progress_trans)
    let ?l1 = "l\<lparr>l_actions := l_actions l @ [''Moved to In Progress'']\<rparr>"
    obtain r2 where g: "get_issue (i_key (l_subtask l)) t1 = (r2, t')"
      using get_issue_snd [of "i_key (l_subtask l)" t1] t'
      by (cases "get_issue (i_key (l_subtask l)) t1") simp
    show ?thesis
    proof (cases r2)
      case (Inl e)
      with g assms(1) True tr moved have "r = Inl (e, ?l1)"
        by (simp add: step_open_def Let_def)
      with p True show ?thesis by simp
    next
      case (Inr x)
      with g have x: "i_key x = i_key (l_subtask l)" "issues t1 (i_key (l_subtask l)) = Some (i_fields x)"
        by (auto dest: get_issue_Inr)
      with i1 dd have fx: "i_fields x = (i_fields (l_subtask l))\<lparr>f_status := ''In Progress.''\<rparr>"
        by simp
      then have sx: "f_status (i_fields x) = ''In Progress.''" by simp
      from Inr g assms(1) True tr moved
      have r: "r = Inr (?l1\<lparr>l_subtask := x, l_current_status := f_status (i_fields x)\<rparr>)"
        by (simp add: step_open_def Let_def)
      have "issues t' (i_key x) = Some (i_fields x)"
        using x t' by simp
      with r p True x fx sx show ?thesis by (simp add: consistent_def)
    qed
  qed
qed

lemma step_worklog_cases:
  assumes "step_worklog l uname t = (r, t')"
  shows "workflow t' = workflow t \<and> myself_info t' = myself_info t \<and> issues t' = issues t \<and>
         (case r of
            Inl (e, l') \<Rightarrow> l' = l
          | Inr l' \<Rightarrow>
              l_subtask l' = l_subtask l \<and> l_current_status l' = l_current_status l \<and>
              (l_actions l' = l_actions l @ [''Logged 2h work''] \<or>
               l_actions l' = l_actions l @ [''Work already logged, skipped worklog'']))"
proof -
  obtain r1 t1 where h: "has_worklog_by_user (l_subtask l) uname t = (r1, t1)"
    by (cases "has_worklog_by_user (l_subtask l) uname t")
  then have t1: "t1 = tick (Worklogs (i_key (l_subtask l))) t"
    using has_worklog_by_user_snd [of "l_subtask l" uname t] by simp
  show ?thesis
  proof (cases "r1 = Inr False")
    case False
    with h assms t1 show ?thesis
      by (auto simp: step_worklog_def split: sum.splits bool.splits)
  next
    case True
    obtain r2 t2 where a: "add_worklog (l_subtask l) ''2h'' t1 = (r2, t2)"
      by (cases "add_worklog (l_subtask l) ''2h'' t1")
    from add_worklog_frame [OF a] t1
    have "workflow t2 = workflow t \<and> myself_info t2 = myself_info t \<and> issues t2 = issues t"
      by simp
    with True h a assms show ?thesis
      by (auto simp: step_worklog_def split: sum.splits)
  qed
qed

lemma step_complete_cases:
  assumes "step_complete l t = (r, t')" and "unique_ids t"
  shows "workflow t' = workflow t \<and> myself_info t' = myself_info t \<and>
         (case r of
            Inl (e, l') \<Rightarrow> l' = l \<and> issues t' = issues t
          | Inr l' \<Rightarrow>
              l_subtask l' = l_subtask l \<and> l_current_status l' = l_current_status l \<and>
              (l_actions l' = l_actions l \<and> issues t' = issues t \<or>
               l_actions l' = l_actions l @ [''Moved to Completed''] \<and>
               (\<exists>d. issues t (i_key (l_subtask l)) = Some d \<and>
                  issues t' = (issues t)(i_key (l_subtask l) \<mapsto> d\<lparr>f_status := ''Completed''\<rparr>))))"
proof -
  obtain r1 t1 where tr: "transition_issue (l_subtask l) ''Completed'' t = (r1, t1)"
    by (cases "transition_issue (l_subtask l) ''Completed'' t")
  from transition_issue_cases [OF tr assms(2)] tr assms(1) show ?thesis
    by (auto simp: step_complete_def split: sum.splits bool.splits if_splits)
qed

lemma step_complete_progress:
  assumes "step_complete l t = (r, t')" and "unique_ids t" and "consistent l t"
    and "l_current_status l = ''In Progress.''"
  shows "progress t t'"
proof -
  note c = step_complete_cases [OF assms(1,2)]
  show ?thesis
  proof (cases "issues t' = issues t")
    case True
    with c show ?thesis by (simp add: progress_same_issues)
  next
    case False
    with c obtain d where "issues t (i_key (l_subtask l)) = Some d"
      and "issues t' = (issues t)(i_key (l_subtask l) \<mapsto> d\<lparr>f_status := ''Completed''\<rparr>)"
      by (auto split: sum.splits)
    moreover from this assms(3,4) have "f_status d = ''In Progress.''"
      by (simp add: consistent_def)
    ultimately show ?thesis
      using c by (intro progress_move [where k="i_key (l_subtask l)" and d=d]) auto
  qed
qed

lemma distinct_actions [simp]:
  "''Moved to Completed'' \<noteq> ''Moved to In Progress''"
  "''Moved to Completed'' \<noteq> ''Logged 2h work''"
  "''Moved to Completed'' \<noteq> ''Work already logged, skipped worklog''"
  "''Moved to In Progress'' \<noteq> ''Logged 2h work''"
  "''Moved to In Progress'' \<noteq> ''Work already logged, skipped worklog''"
  by simp_all

lemma try_block_cases:
  assumes run: "try_block iss uname who t = (r, t')"
    and ids: "unique_ids t"
    and snap: "issues t (i_key iss) = Some (i_fields iss)"
  shows "progress t t' \<and>
    (case r of
       Inl (e, l) \<Rightarrow>
         i_key (l_subtask l) = i_key iss \<and>
         ''Moved to Completed'' \<notin> set (l_actions l) \<and>
         (''Moved to In Progress'' \<notin> set (l_actions l) \<longrightarrow>
            l_current_status l = f_status (i_fields iss)) \<and>
         (''Moved to In Progress'' \<in> set (l_actions l) \<longrightarrow>
            f_status (i_fields iss) = ''Open'' \<and>
            (l_current_status l = ''Open'' \<or> l_current_status l = ''In Progress.''))
     | Inr res \<Rightarrow>
         subtask_key res = i_key iss \<and> assignee res = who \<and>
         (if f_status (i_fields iss) = ''Completed''
          then status res = ''skipped'' \<and> message res = ''Already Completed'' \<and>
               actions res = [] \<and> t' = t
          else status res = ''success'' \<and> message res = ''Processed successfully'') \<and>
         (''Moved to Completed'' \<in> set (actions res) \<longrightarrow>
            issues t' (i_key iss) = Some ((i_fields iss)\<lparr>f_status := ''Completed''\<rparr>)) \<and>
         (''Moved to In Progress'' \<notin> set (actions res) \<longrightarrow>
            current_status res = f_status (i_fields iss)) \<and>
         (''Moved to In Progress'' \<in> set (actions res) \<longrightarrow>
            f_status (i_fields iss) = ''Open'' \<and> current_status res = ''In Progress.''))"
proof -
  let ?l0 = "\<lparr>l_subtask = iss, l_current_status = f_status (i_fields iss), l_actions = []\<rparr>"
  have c0: "consistent ?l0 t" using snap by (simp add: consistent_def)
  obtain r1 t1 where s1: "step_open ?l0 t = (r1, t1)" by (cases "step_open ?l0 t")
  note o = step_open_cases [OF s1 ids c0]
  then have p1: "progress t t1" by simp
  show ?thesis
  proof (cases r1)
    case (Inl x)
    with s1 run have "r = Inl x" "t' = t1" by (simp_all add: try_block_def)
    with o Inl show ?thesis by (cases x) auto
  next
    case (Inr l1)
    with o have c1: "consistent l1 t1" and k1: "i_key (l_subtask l1) = i_key iss"
      and sh1: "l1 = ?l0 \<or>
         f_status (i_fields iss) = ''Open'' \<and> l_current_status l1 = ''In Progress.'' \<and>
         i_fields (l_subtask l1) = (i_fields iss)\<lparr>f_status := ''In Progress.''\<rparr> \<and>
         l_actions l1 = [''Moved to In Progress'']"
      by auto
    show ?thesis
    proof (cases "l_current_status l1 = ''In Progress.''")
      case False
      with s1 Inr run have "t' = t1"
        and "r = Inr (mk_result l1 (if l_current_status l1 = ''Completed'' then ''skipped'' else ''success'')
                 (if l_current_status l1 = ''Completed'' then ''Already Completed'' else ''Processed successfully'') who)"
        by (auto simp: try_block_def split: if_splits)
      moreover from False sh1 have l1: "l1 = ?l0" by auto
      moreover from l1 s1 Inr have "f_status (i_fields iss) = ''Completed'' \<Longrightarrow> t1 = t"
        by (simp add: step_open_def)
      ultimately show ?thesis using p1 by (simp add: mk_result_def)
    next
      case True
      obtain r2 t2 where s2: "step_worklog l1 uname t1 = (r2, t2)"
        by (cases "step_worklog l1 uname t1")
      note w = step_worklog_cases [OF s2]
      then have p2: "progress t1 t2" by (simp add: progress_same_issues)
      have p12: "progress t t2" using p1 p2 by (rule progress_trans)
      have u1: "unique_ids t1" using p1 ids by (rule progress_unique_ids)
      have u2: "unique_ids t2" using p2 u1 by (rule progress_unique_ids)
      have d1: "(i_fields (l_subtask l1))\<lparr>f_status := ''Completed''\<rparr>
          = (i_fields iss)\<lparr>f_status := ''Completed''\<rparr>"
        using sh1 by auto
      have st1: "f_status (i_fields iss) \<noteq> ''Completed''"
        using sh1 True by auto
      show ?thesis
      proof (cases r2)
        case (Inl x)
        with s1 Inr True s2 run have "r = Inl x" "t' = t2" by (simp_all add: try_block_def)
        with w Inl p12 k1 sh1 True show ?thesis by (cases x) auto
      next
        case inr2: (Inr l2)
        with w have c2: "consistent l2 t2" and cur2: "l_current_status l2 = ''In Progress.''"
          and sub2: "l_subtask l2 = l_subtask l1"
          and a2: "l_actions l2 = l_actions l1 @ [''Logged 2h work''] \<or>
                   l_actions l2 = l_actions l1 @ [''Work already logged, skipped worklog'']"
          using c1 True by (auto simp: consistent_def)
        obtain r3 t3 where s3: "step_complete l2 t2 = (r3, t3)"
          by (cases "step_complete l2 t2")
        note c = step_complete_cases [OF s3 u2]
        have p3: "progress t2 t3" using s3 u2 c2 cur2 by (rule step_complete_progress)
        have p: "progress t t3" using p12 p3 by (rule progress_trans)
        have i2: "issues t2 (i_key iss) = Some (i_fields (l_subtask l1))"
          using c2 sub2 k1 by (simp add: consistent_def)
        show ?thesis
        proof (cases r3)
          case (Inl x)
          with s1 Inr True s2 inr2 s3 run have "r = Inl x" "t' = t3"
            by (simp_all add: try_block_def)
          with c Inl p k1 sh1 sub2 cur2 a2 True show ?thesis by (cases x) auto
        next
          case inr3: (Inr l3)
          with s1 Inr True s2 inr2 s3 run
          have r: "r = Inr (mk_result l3 ''success'' ''Processed successfully'' who)" and t': "t' = t3"
            by (simp_all add: try_block_def)
          from c inr3 have sub3: "l_subtask l3 = l_subtask l2"
            and cur3: "l_current_status l3 = ''In Progress.''"
            and a3: "l_actions l3 = l_actions l2 \<and> issues t3 = issues t2 \<or>
                l_actions l3 = l_actions l2 @ [''Moved to Completed''] \<and>
                issues t3 (i_key iss) = Some ((i_fields iss)\<lparr>f_status := ''Completed''\<rparr>)"
            using cur2 sub2 k1 i2 d1 by auto
          show ?thesis
            using r t' p sub3 sub2 k1 cur3 st1 sh1 a2 a3 True
            by (auto simp: mk_result_def)
        qed
      qed
    qed
  qed
qed

lemma step_open_key:
  "step_open l t = (r, t') \<Longrightarrow>
   (case r of Inl (e, l') \<Rightarrow> i_key (l_subtask l') = i_key (l_subtask l)
    | Inr l' \<Rightarrow> i_key (l_subtask l') = i_key (l_subtask l))"
  by (auto simp: step_open_def Let_def split: prod.splits sum.splits bool.splits if_splits
      dest!: get_issue_Inr)

lemma step_complete_key:
  "step_complete l t = (r, t') \<Longrightarrow>
   (case r of Inl (e, l') \<Rightarrow> l_subtask l' = l_subtask l | Inr l' \<Rightarrow> l_subtask l' = l_subtask l)"
  by (auto simp: step_complete_def split: prod.splits sum.splits bool.splits)

lemma try_block_key:
  assumes "try_block iss uname who t = (Inl (e, l), t')"
  shows "i_key (l_subtask l) = i_key iss"
proof -
  let ?l0 = "\<lparr>l_subtask = iss, l_current_status = f_status (i_fields iss), l_actions = []\<rparr>"
  obtain r1 t1 where s1: "step_open ?l0 t = (r1, t1)" by (cases "step_open ?l0 t")
  note k1 = step_open_key [OF s1]
  show ?thesis
  proof (cases r1)
    case (Inl x)
    with s1 assms k1 show ?thesis by (auto simp: try_block_def)
  next
    case (Inr l1)
    with k1 have k: "i_key (l_subtask l1) = i_key iss" by simp
    obtain r2 t2 where s2: "step_worklog l1 uname t1 = (r2, t2)"
      by (cases "step_worklog l1 uname t1")
    note k2 = step_worklog_cases [OF s2]
    show ?thesis
    proof (cases r2)
      case (Inl x)
      with s1 Inr s2 assms k k2 show ?thesis
        by (auto simp: try_block_def split: if_splits)
    next
      case inr2: (Inr l2)
      obtain r3 t3 where s3: "step_complete l2 t2 = (r3, t3)"
        by (cases "step_complete l2 t2")
      from step_complete_key [OF s3] s1 Inr s2 inr2 s3 assms k k2 show ?thesis
        by (auto simp: try_block_def split: if_splits sum.splits)
    qed
  qed
qed

lemma process_single_subtask_cases:
  assumes run: "process_single_subtask iss uname t = (r, t')"
    and ids: "unique_ids t"
    and snap: "issues t (i_key iss) = Some (i_fields iss)"
  shows "progress t t' \<and>
    (case r of
       Inl e \<Rightarrow> True
     | Inr res \<Rightarrow>
         subtask_key res = i_key iss \<and> assignee_name_of iss = Inr (assignee res) \<and>
         (status res = ''error'' \<or>
          status res = ''success'' \<and> message res = ''Processed successfully'' \<and>
            f_status (i_fields iss) \<noteq> ''Completed'' \<or>
          status res = ''skipped'' \<and> message res = ''Already Completed'' \<and> actions res = [] \<and>
            f_status (i_fields iss) = ''Completed'' \<and> t' = t) \<and>
         (''Moved to Completed'' \<in> set (actions res) \<longrightarrow>
            issues t' (i_key iss) = Some ((i_fields iss)\<lparr>f_status := ''Completed''\<rparr>)) \<and>
         (''Moved to In Progress'' \<notin> set (actions res) \<longrightarrow>
            current_status res = f_status (i_fields iss)) \<and>
         (''Moved to In Progress'' \<in> set (actions res) \<longrightarrow>
            f_status (i_fields iss) = ''Open'' \<and>
            (current_status res = ''In Progress.'' \<or>
             current_status res = ''Open'' \<and> status res = ''error'')))"
proof (cases "assignee_name_of iss")
  case (Inl e)
  with run show ?thesis by (auto simp: process_single_subtask_def)
next
  case (Inr who)
  obtain r1 t1 where tb: "try_block iss uname who t = (r1, t1)"
    by (cases "try_block iss uname who t")
  note c = try_block_cases [OF tb ids snap]
  from tb Inr run have t': "t' = t1"
    by (auto simp: process_single_subtask_def split: sum.splits prod.splits)
  show ?thesis
  proof (cases r1)
    case res: (Inr res)
    with tb Inr run have "r = Inr res" by (simp add: process_single_subtask_def)
    with c res t' Inr show ?thesis by (auto split: if_splits)
  next
    case (Inl x)
    obtain e l where x: "x = (e, l)" by (cases x)
    with Inl tb Inr run have r: "r = except_JIRAError e l who"
      by (simp add: process_single_subtask_def)
    show ?thesis
    proof (cases e)
      case (JIRAError code msg rendered)
      with r have "r = Inr (mk_result l ''error'' (''Error: '' @ format_opt msg) who)" by simp
      with c Inl x t' Inr show ?thesis by (auto simp: mk_result_def)
    next
      case (AttributeError m)
      with r c t' show ?thesis by simp
    next
      case (Exception m)
      with r c t' show ?thesis by simp
    qed
  qed
qed

section \<open>Sub-tasks of other people\<close>

text \<open>
  A sub-task with no assignee, or whose assignee has a \<^verbatim>\<open>name\<close> that is not the
  caller's username, is recorded as \<open>skipped\<close> with the message
  \<open>Not assigned to me (assignee=...)\<close> (Python prints the missing assignee as
  \<open>None\<close>) and no action, and the loop goes on with the counter \<open>skipped\<close> raised by
  one. The only remote call made for it is the fetch of the sub-task: the tracker
  afterwards differs from the one before in the fault script and the call log alone,
  so no transition, worklog or assignment call was made.
\<close>

lemma not_assigned_is_skipped:
  assumes "issues t k = Some d" and "no_fault 1 t"
    and "f_assignee d = None \<or> (\<exists>a n. f_assignee d = Some a \<and> u_name a = Some n \<and> Some n \<noteq> uname)"
  shows "process_loop (k # ks) uname (rs, p, s) t =
           process_loop ks uname
             (rs @ [\<lparr>subtask_key = k, current_status = f_status d, actions = [],
                     status = ''skipped'',
                     message = ''Not assigned to me (assignee=''
                        @ format_opt (case f_assignee d of None \<Rightarrow> None | Some a \<Rightarrow> u_name a) @ '')'',
                     assignee = (case f_assignee d of None \<Rightarrow> None | Some a \<Rightarrow> u_name a)\<rparr>],
              p, s + 1)
             (t\<lparr>faults := tl (faults t), calls := calls t @ [GetIssue k]\<rparr>)"
proof -
  have fetch: "get_issue k t = (Inr \<lparr>i_key = k, i_fields = d\<rparr>, tick (GetIssue k) t)"
    using assms(2,1) by (simp add: get_issue_ok)
  from assms(3) have sp: "should_process_subtask \<lparr>i_key = k, i_fields = d\<rparr> uname = Inr False"
    by (auto simp: should_process_subtask_def hasattr_name_def attr_name_def)
  from assms(3) have an: "assignee_name_of \<lparr>i_key = k, i_fields = d\<rparr>
      = Inr (case f_assignee d of None \<Rightarrow> None | Some a \<Rightarrow> u_name a)"
    by (auto simp: assignee_name_of_def attr_name_def)
  show ?thesis
    by (simp add: fetch sp an tick_def)
qed

lemma not_assigned_is_skipped_example:
  "issues demo ''PROJ-4'' = Some (sub ''Open'' (Some bob)) \<and>
   issues demo ''PROJ-6'' = Some (sub ''Blocked'' None) \<and>
   no_fault 1 demo \<and>
   process_loop [''PROJ-4''] (Some ''alice'') ([], 0, 0) demo =
     (Inr ([\<lparr>subtask_key = ''PROJ-4'', current_status = ''Open'', actions = [],
              status = ''skipped'', message = ''Not assigned to me (assignee=bob)'',
              assignee = Some ''bob''\<rparr>], 0, 1),
      demo\<lparr>faults := [], calls := [GetIssue ''PROJ-4'']\<rparr>) \<and>
   process_loop [''PROJ-6''] (Some ''alice'') ([], 0, 0) demo =
     (Inr ([\<lparr>subtask_key = ''PROJ-6'', current_status = ''Blocked'', actions = [],
              status = ''skipped'', message = ''Not assigned to me (assignee=None)'',
              assignee = None\<rparr>], 0, 1),
      demo\<lparr>faults := [], calls := [GetIssue ''PROJ-6'']\<rparr>)"
  using not_assigned_is_skipped [of demo "''PROJ-4''" "sub ''Open'' (Some bob)" "Some ''alice''" "[]" "[]" 0 0]
    not_assigned_is_skipped [of demo "''PROJ-6''" "sub ''Blocked'' None" "Some ''alice''" "[]" "[]" 0 0]
  by (simp add: format_opt_def)

text \<open>
  \<^verbatim>\<open>_should_process_subtask\<close> falls back on the \<^verbatim>\<open>key\<close> of an assignee resource
  that has no \<^verbatim>\<open>name\<close>; the skip message and \<^verbatim>\<open>_process_single_subtask\<close> read
  \<^verbatim>\<open>name\<close> all the same, so for such a resource the loop ends with the
  \<open>AttributeError\<close>.
\<close>

lemma assignee_without_name:
  assumes "issues t k = Some d" and "no_fault 1 t"
    and "f_assignee d = Some a" and "u_name a = None" and "u_key a = Some x"
  shows "fst (process_loop (k # ks) uname (rs, p, s) t) = Inl (AttributeError ''name'')"
proof -
  from assms(2) have nf: "no_fault (Suc 0) t" by simp
  have fetch: "get_issue k t = (Inr \<lparr>i_key = k, i_fields = d\<rparr>, tick (GetIssue k) t)"
    using nf assms(1) by (rule get_issue_ok)
  have sp: "should_process_subtask \<lparr>i_key = k, i_fields = d\<rparr> uname = Inr (Some x = uname)"
    using assms(3,4,5) by (simp add: should_process_subtask_def hasattr_name_def attr_key_def)
  have an: "assignee_name_of \<lparr>i_key = k, i_fields = d\<rparr> = Inl (AttributeError ''name'')"
    using assms(3,4) by (simp add: assignee_name_of_def attr_name_def)
  show ?thesis
    using fetch sp an by (cases "Some x = uname") (simp_all add: process_single_subtask_def)
qed

text \<open>
  C2. Every sub-task whose assignee is not the caller is to be recorded as \<open>skipped\<close>.
  The code departs from this for an assignee resource that has a \<^verbatim>\<open>key\<close> and no
  \<^verbatim>\<open>name\<close>: \<^verbatim>\<open>_should_process_subtask\<close> compares the key and answers
  \<^verbatim>\<open>False\<close>, the skip branch then reads \<^verbatim>\<open>name\<close>, and the \<open>AttributeError\<close>
  leaves \<^verbatim>\<open>process_story_subtasks\<close>: no entry is recorded for the sub-task, and the
  results of the sub-tasks before it are lost with the batch.
\<close>

theorem key_only_assignee_raises:
  "issues key_only ''PROJ-4'' = Some (sub ''Open'' (Some carol)) \<and>
   should_process_subtask \<lparr>i_key = ''PROJ-4'', i_fields = sub ''Open'' (Some carol)\<rparr> (Some ''alice'')
     = Inr False \<and>
   fst (process_loop [''PROJ-4''] (Some ''alice'') ([], 0, 0) key_only) = Inl (AttributeError ''name'') \<and>
   fst (process_story_subtasks ''PROJ-1'' key_only) = Inl (AttributeError ''name'')"
  by code_simp

section \<open>One sub-task in the loop\<close>

lemma process_loop_one:
  assumes "process_loop [k] uname ([], 0, 0) t = (Inr (rs, p, s), t')"
  shows "\<exists>d res. issues t k = Some d \<and> rs = [res] \<and>
     (should_process_subtask \<lparr>i_key = k, i_fields = d\<rparr> uname = Inr False \<and>
        actions res = [] \<and> status res = ''skipped'' \<and> current_status res = f_status d \<and>
        t' = tick (GetIssue k) t
      \<or> should_process_subtask \<lparr>i_key = k, i_fields = d\<rparr> uname = Inr True \<and>
        process_single_subtask \<lparr>i_key = k, i_fields = d\<rparr> uname (tick (GetIssue k) t) = (Inr res, t'))"
proof -
  obtain r1 t1 where g: "get_issue k t = (r1, t1)" by (cases "get_issue k t")
  with assms obtain iss where r1: "r1 = Inr iss" by (cases r1) auto
  with g have t1: "t1 = tick (GetIssue k) t" and ik: "i_key iss = k"
    and d: "issues t k = Some (i_fields iss)"
    by (auto dest: get_issue_Inr)
  from ik have iss: "iss = \<lparr>i_key = k, i_fields = i_fields iss\<rparr>" by (cases iss) simp
  show ?thesis
    using assms g r1 t1 d iss
    by (auto split: sum.splits bool.splits prod.splits if_splits)
qed

lemma completed_single:
  assumes "f_status (i_fields iss) = ''Completed''" and "assignee_name_of iss = Inr who"
  shows "process_single_subtask iss uname t =
     (Inr \<lparr>subtask_key = i_key iss, current_status = ''Completed'', actions = [],
           status = ''skipped'', message = ''Already Completed'', assignee = who\<rparr>, t)"
  using assms
  by (simp add: process_single_subtask_def try_block_def step_open_def mk_result_def)

lemma should_process_status [simp]:
  "should_process_subtask \<lparr>i_key = k, i_fields = d\<lparr>f_status := x\<rparr>\<rparr> uname
     = should_process_subtask \<lparr>i_key = k, i_fields = d\<rparr> uname"
  by (simp add: should_process_subtask_def)

lemma assignee_name_of_status [simp]:
  "assignee_name_of \<lparr>i_key = k, i_fields = d\<lparr>f_status := x\<rparr>\<rparr>
     = assignee_name_of \<lparr>i_key = k, i_fields = d\<rparr>"
  by (simp add: assignee_name_of_def)

text \<open>
  C3. An assigned sub-task first observed in \<open>Completed\<close> is recorded as \<open>skipped\<close>
  with the message \<open>Already Completed\<close> and no action, and the only remote call made
  for it is its fetch. Consequently, when a run has moved a sub-task to \<open>Completed\<close>,
  a second run on the tracker the first one left records it as \<open>skipped\<close>,
  \<open>Already Completed\<close>.
\<close>

theorem completed_is_skipped:
  "(issues t k = Some d \<and> f_status d = ''Completed'' \<and> f_assignee d = Some a \<and>
    u_name a = Some n \<and> uname = Some n \<and> no_fault 1 t \<longrightarrow>
    process_loop (k # ks) uname (rs, p, s) t =
      process_loop ks uname
        (rs @ [\<lparr>subtask_key = k, current_status = ''Completed'', actions = [],
                status = ''skipped'', message = ''Already Completed'', assignee = Some n\<rparr>],
         p, s + 1)
        (t\<lparr>faults := tl (faults t), calls := calls t @ [GetIssue k]\<rparr>))
   \<and>
   (unique_ids t \<and> process_loop [k] uname ([], 0, 0) t = (Inr ([r1], p1, s1), t1) \<and>
    ''Moved to Completed'' \<in> set (actions r1) \<and> no_fault 1 t1 \<longrightarrow>
    process_loop [k] uname ([], 0, 0) t1 =
      (Inr ([\<lparr>subtask_key = k, current_status = ''Completed'', actions = [],
               status = ''skipped'', message = ''Already Completed'', assignee = assignee r1\<rparr>],
            0, 1),
       t1\<lparr>faults := tl (faults t1), calls := calls t1 @ [GetIssue k]\<rparr>))"
proof (intro conjI impI)
  assume h: "issues t k = Some d \<and> f_status d = ''Completed'' \<and> f_assignee d = Some a \<and>
    u_name a = Some n \<and> uname = Some n \<and> no_fault 1 t"
  then have nf: "no_fault (Suc 0) t" and d: "issues t k = Some d" by simp_all
  have fetch: "get_issue k t = (Inr \<lparr>i_key = k, i_fields = d\<rparr>, tick (GetIssue k) t)"
    using nf d by (rule get_issue_ok)
  from h have sp: "should_process_subtask \<lparr>i_key = k, i_fields = d\<rparr> uname = Inr True"
    by (simp add: should_process_subtask_def hasattr_name_def attr_name_def)
  from h have who: "assignee_name_of \<lparr>i_key = k, i_fields = d\<rparr> = Inr (Some n)"
    by (simp add: assignee_name_of_def attr_name_def)
  from h have "f_status (i_fields \<lparr>i_key = k, i_fields = d\<rparr>) = ''Completed''" by simp
  from completed_single [OF this who]
  show "process_loop (k # ks) uname (rs, p, s) t =
      process_loop ks uname
        (rs @ [\<lparr>subtask_key = k, current_status = ''Completed'', actions = [],
                status = ''skipped'', message = ''Already Completed'', assignee = Some n\<rparr>],
         p, s + 1)
        (t\<lparr>faults := tl (faults t), calls := calls t @ [GetIssue k]\<rparr>)"
    by (simp add: fetch sp tick_def)
next
  assume h: "unique_ids t \<and> process_loop [k] uname ([], 0, 0) t = (Inr ([r1], p1, s1), t1) \<and>
    ''Moved to Completed'' \<in> set (actions r1) \<and> no_fault 1 t1"
  let ?done = "\<lambda>d. d\<lparr>f_status := ''Completed''\<rparr>"
  from h process_loop_one [of k uname t "[r1]" p1 s1 t1]
  obtain d where d: "issues t k = Some d"
    and sp: "should_process_subtask \<lparr>i_key = k, i_fields = d\<rparr> uname = Inr True"
    and run: "process_single_subtask \<lparr>i_key = k, i_fields = d\<rparr> uname (tick (GetIssue k) t) = (Inr r1, t1)"
    by auto
  from h have ids: "unique_ids (tick (GetIssue k) t)" by simp
  from process_single_subtask_cases [OF run ids] d h
  have d1: "issues t1 k = Some (?done d)"
    and who: "assignee_name_of \<lparr>i_key = k, i_fields = d\<rparr> = Inr (assignee r1)"
    by simp_all
  from h have nf: "no_fault (Suc 0) t1" by simp
  have fetch: "get_issue k t1 = (Inr \<lparr>i_key = k, i_fields = ?done d\<rparr>, tick (GetIssue k) t1)"
    using nf d1 by (rule get_issue_ok)
  have "process_single_subtask \<lparr>i_key = k, i_fields = ?done d\<rparr> uname (tick (GetIssue k) t1) =
     (Inr \<lparr>subtask_key = k, current_status = ''Completed'', actions = [],
           status = ''skipped'', message = ''Already Completed'', assignee = assignee r1\<rparr>,
      tick (GetIssue k) t1)"
    using completed_single [of "\<lparr>i_key = k, i_fields = ?done d\<rparr>" "assignee r1" uname] who
    by simp
  then show "process_loop [k] uname ([], 0, 0) t1 =
      (Inr ([\<lparr>subtask_key = k, current_status = ''Completed'', actions = [],
               status = ''skipped'', message = ''Already Completed'', assignee = assignee r1\<rparr>],
            0, 1),
       t1\<lparr>faults := tl (faults t1), calls := calls t1 @ [GetIssue k]\<rparr>)"
    using fetch sp by (simp add: tick_def)
qed

lemma demo_run2_result:
  "fst (process_loop [''PROJ-2''] (Some ''alice'') ([], 0, 0) demo) =
   Inr ([\<lparr>subtask_key = ''PROJ-2'', current_status = ''In Progress.'',
          actions = [''Moved to In Progress'', ''Logged 2h work'', ''Moved to Completed''],
          status = ''success'', message = ''Processed successfully'',
          assignee = Some ''alice''\<rparr>], 1, 0)"
  by code_simp

lemma demo_run2_faults:
  "faults (snd (process_loop [''PROJ-2''] (Some ''alice'') ([], 0, 0) demo)) = []"
  by code_simp

theorem completed_is_skipped_witness:
  "issues demo ''PROJ-3'' = Some (sub ''Completed'' (Some alice)) \<and>
   process_loop [''PROJ-3''] (Some ''alice'') ([], 0, 0) demo =
     (Inr ([\<lparr>subtask_key = ''PROJ-3'', current_status = ''Completed'', actions = [],
              status = ''skipped'', message = ''Already Completed'', assignee = Some ''alice''\<rparr>],
           0, 1),
      demo\<lparr>faults := [], calls := [GetIssue ''PROJ-3'']\<rparr>) \<and>
   unique_ids demo \<and>
   fst (process_loop [''PROJ-2''] (Some ''alice'') ([], 0, 0) demo) =
     Inr ([\<lparr>subtask_key = ''PROJ-2'', current_status = ''In Progress.'',
            actions = [''Moved to In Progress'', ''Logged 2h work'', ''Moved to Completed''],
            status = ''success'', message = ''Processed successfully'',
            assignee = Some ''alice''\<rparr>], 1, 0) \<and>
   no_fault 1 (snd (process_loop [''PROJ-2''] (Some ''alice'') ([], 0, 0) demo)) \<and>
   fst (process_loop [''PROJ-2''] (Some ''alice'') ([], 0, 0)
          (snd (process_loop [''PROJ-2''] (Some ''alice'') ([], 0, 0) demo))) =
     Inr ([\<lparr>subtask_key = ''PROJ-2'', current_status = ''Completed'', actions = [],
            status = ''skipped'', message = ''Already Completed'', assignee = Some ''alice''\<rparr>],
          0, 1)"
proof -
  let ?run = "process_loop [''PROJ-2''] (Some ''alice'') ([], 0, 0) demo"
  let ?r1 = "\<lparr>subtask_key = ''PROJ-2'', current_status = ''In Progress.'',
          actions = [''Moved to In Progress'', ''Logged 2h work'', ''Moved to Completed''],
          status = ''success'', message = ''Processed successfully'',
          assignee = Some ''alice''\<rparr>"
  have first: "?run = (Inr ([?r1], 1, 0), snd ?run)"
    using demo_run2_result by (cases ?run) simp
  have quiet: "no_fault 1 (snd ?run)"
    unfolding no_fault_def demo_run2_faults by simp
  have a: "process_loop [''PROJ-3''] (Some ''alice'') ([], 0, 0) demo =
     (Inr ([\<lparr>subtask_key = ''PROJ-3'', current_status = ''Completed'', actions = [],
              status = ''skipped'', message = ''Already Completed'', assignee = Some ''alice''\<rparr>],
           0, 1),
      demo\<lparr>faults := [], calls := [GetIssue ''PROJ-3'']\<rparr>)"
    using completed_is_skipped [of demo "''PROJ-3''" "sub ''Completed'' (Some alice)" alice
        "''alice''" "Some ''alice''" "[]" "[]" 0 0]
    by simp
  have b: "fst (process_loop [''PROJ-2''] (Some ''alice'') ([], 0, 0) (snd ?run)) =
     Inr ([\<lparr>subtask_key = ''PROJ-2'', current_status = ''Completed'', actions = [],
            status = ''skipped'', message = ''Already Completed'', assignee = Some ''alice''\<rparr>],
          0, 1)"
    using completed_is_skipped [of demo "''PROJ-2''" _ _ _ "Some ''alice''" _ _ _ _ ?r1 1 0 "snd ?run"]
      first quiet
    by simp
  show ?thesis using a b demo_run2_result quiet by simp
qed

section \<open>Runs without an exception\<close>

lemma step_open_returns:
  assumes "step_open l t = (Inr l1, t1)"
  shows "l1 = l \<and> (l_current_status l \<noteq> ''Open'' \<and> t1 = t \<or>
                   l_current_status l = ''Open'' \<and>
                   transition_issue (l_subtask l) ''In Progress.'' t = (Inr False, t1))
       \<or> l_current_status l = ''Open'' \<and>
         (\<exists>t2 x. transition_issue (l_subtask l) ''In Progress.'' t = (Inr True, t2) \<and>
            get_issue (i_key (l_subtask l)) t2 = (Inr x, t1) \<and>
            l1 = \<lparr>l_subtask = x, l_current_status = f_status (i_fields x),
                  l_actions = l_actions l @ [''Moved to In Progress'']\<rparr>)"
  using assms
  by (auto simp: step_open_def Let_def split: prod.splits sum.splits bool.splits if_splits)

lemma step_complete_returns:
  "step_complete l t = (Inr l', t') \<Longrightarrow>
   l_subtask l' = l_subtask l \<and> l_current_status l' = l_current_status l \<and>
   (l_actions l' = l_actions l \<or> l_actions l' = l_actions l @ [''Moved to Completed''])"
  by (auto simp: step_complete_def split: prod.splits sum.splits bool.splits)

lemma transition_issue_False:
  "transition_issue iss name t = (Inr False, t1) \<Longrightarrow> t1 = tick (Transitions (i_key iss)) t"
  by (auto simp: transition_issue_def jira_transitions_def jira_transition_issue_def remote_def
      split: option.splits prod.splits sum.splits)

lemma try_block_returns:
  assumes "try_block iss uname who t = (Inr res, t')"
  shows "\<exists>l1 t1 extra.
           step_open \<lparr>l_subtask = iss, l_current_status = f_status (i_fields iss), l_actions = []\<rparr> t
             = (Inr l1, t1) \<and>
           current_status res = l_current_status l1 \<and>
           actions res = l_actions l1 @ extra \<and> ''Moved to In Progress'' \<notin> set extra \<and>
           (l_current_status l1 \<noteq> ''In Progress.'' \<longrightarrow> extra = [] \<and> t' = t1) \<and>
           (if l_current_status l1 = ''Completed''
            then status res = ''skipped'' \<and> message res = ''Already Completed''
            else status res = ''success'' \<and> message res = ''Processed successfully'')"
proof -
  let ?l0 = "\<lparr>l_subtask = iss, l_current_status = f_status (i_fields iss), l_actions = []\<rparr>"
  obtain r1 t1 where s1: "step_open ?l0 t = (r1, t1)" by (cases "step_open ?l0 t")
  with assms obtain l1 where r1: "r1 = Inr l1" by (cases r1) (auto simp: try_block_def)
  show ?thesis
  proof (cases "l_current_status l1 = ''In Progress.''")
    case False
    with s1 r1 assms have "t' = t1"
      and "res = mk_result l1 (if l_current_status l1 = ''Completed'' then ''skipped'' else ''success'')
                 (if l_current_status l1 = ''Completed'' then ''Already Completed'' else ''Processed successfully'') who"
      by (auto simp: try_block_def split: if_splits)
    with s1 r1 False show ?thesis
      by (intro exI [where x=l1] exI [where x=t1] exI [where x="[]"]) (simp add: mk_result_def)
  next
    case True
    obtain r2 t2 where s2: "step_worklog l1 uname t1 = (r2, t2)" by (cases "step_worklog l1 uname t1")
    with s1 r1 True assms obtain l2 where r2: "r2 = Inr l2"
      by (cases r2) (auto simp: try_block_def)
    obtain r3 t3 where s3: "step_complete l2 t2 = (r3, t3)" by (cases "step_complete l2 t2")
    with s1 r1 True s2 r2 assms obtain l3 where r3: "r3 = Inr l3"
      by (cases r3) (auto simp: try_block_def)
    from s1 r1 True s2 r2 s3 r3 assms
    have res: "res = mk_result l3 ''success'' ''Processed successfully'' who"
      by (simp add: try_block_def)
    from step_worklog_cases [OF s2] r2
    have w: "l_current_status l2 = l_current_status l1"
      "l_actions l2 = l_actions l1 @ [''Logged 2h work''] \<or>
       l_actions l2 = l_actions l1 @ [''Work already logged, skipped worklog'']"
      by simp_all
    from step_complete_returns s3 r3
    have c: "l_current_status l3 = l_current_status l2"
      "l_actions l3 = l_actions l2 \<or> l_actions l3 = l_actions l2 @ [''Moved to Completed'']"
      by blast+
    from w c obtain extra where "l_actions l3 = l_actions l1 @ extra"
      and "''Moved to In Progress'' \<notin> set extra"
      by auto
    with s1 r1 True res w c show ?thesis
      by (intro exI [where x=l1] exI [where x=t1] exI [where x=extra]) (simp add: mk_result_def)
  qed
qed

text \<open>
  C4, as amended. An assigned sub-task whose \<^verbatim>\<open>try\<close> block returns (no exception was
  raised) gets the outcome \<open>success\<close> with the message \<open>Processed successfully\<close>,
  however many actions took effect, unless the status last read for it in the run is
  \<open>Completed\<close>; then it gets \<open>skipped\<close> with \<open>Already Completed\<close>. The status last
  read is the one the result records: the one first observed, or, after a move to
  \<open>In Progress.\<close>, the one read again. An \<open>Open\<close> sub-task whose move to
  \<open>In Progress.\<close> is not offered keeps its status and has no action, and a sub-task in
  a status other than the three of the workflow has no action and causes no remote call;
  both are \<open>success\<close>.
\<close>

theorem no_exception_is_success:
  assumes "assignee_name_of iss = Inr who"
    and "try_block iss uname who t = (Inr res, t')"
  shows "process_single_subtask iss uname t = (Inr res, t') \<and>
         (if current_status res = ''Completed''
          then status res = ''skipped'' \<and> message res = ''Already Completed''
          else status res = ''success'' \<and> message res = ''Processed successfully'') \<and>
         (''Moved to In Progress'' \<notin> set (actions res) \<longrightarrow>
            current_status res = f_status (i_fields iss)) \<and>
         (''Moved to In Progress'' \<in> set (actions res) \<longrightarrow>
            f_status (i_fields iss) = ''Open'' \<and>
            (\<exists>x. fst (get_issue (i_key iss) (snd (transition_issue iss ''In Progress.'' t))) = Inr x \<and>
                 current_status res = f_status (i_fields x))) \<and>
         (f_status (i_fields iss) = ''Open'' \<and>
          fst (transition_issue iss ''In Progress.'' t) = Inr False \<longrightarrow>
            status res = ''success'' \<and> actions res = [] \<and> current_status res = ''Open'' \<and>
            issues t' = issues t) \<and>
         (f_status (i_fields iss) \<noteq> ''Open'' \<and> f_status (i_fields iss) \<noteq> ''In Progress.'' \<and>
          f_status (i_fields iss) \<noteq> ''Completed'' \<longrightarrow>
            status res = ''success'' \<and> actions res = [] \<and> t' = t)"
proof -
  let ?l0 = "\<lparr>l_subtask = iss, l_current_status = f_status (i_fields iss), l_actions = []\<rparr>"
  from try_block_returns [OF assms(2)] obtain l1 t1 extra
    where s1: "step_open ?l0 t = (Inr l1, t1)"
      and cur: "current_status res = l_current_status l1"
      and act: "actions res = l_actions l1 @ extra" "''Moved to In Progress'' \<notin> set extra"
      and rest: "l_current_status l1 \<noteq> ''In Progress.'' \<longrightarrow> extra = [] \<and> t' = t1"
      and out: "if l_current_status l1 = ''Completed''
            then status res = ''skipped'' \<and> message res = ''Already Completed''
            else status res = ''success'' \<and> message res = ''Processed successfully''"
    by blast
  note sh = step_open_returns [OF s1]
  have a: "process_single_subtask iss uname t = (Inr res, t')"
    using assms by (simp add: process_single_subtask_def)
  have b: "if current_status res = ''Completed''
          then status res = ''skipped'' \<and> message res = ''Already Completed''
          else status res = ''success'' \<and> message res = ''Processed successfully''"
    using out cur by simp
  have c: "''Moved to In Progress'' \<notin> set (actions res) \<longrightarrow>
            current_status res = f_status (i_fields iss)"
    using sh cur act by auto
  have d: "''Moved to In Progress'' \<in> set (actions res) \<longrightarrow>
            f_status (i_fields iss) = ''Open'' \<and>
            (\<exists>x. fst (get_issue (i_key iss) (snd (transition_issue iss ''In Progress.'' t))) = Inr x \<and>
                 current_status res = f_status (i_fields x))"
    using sh cur act by auto
  have e: "f_status (i_fields iss) = ''Open'' \<and>
          fst (transition_issue iss ''In Progress.'' t) = Inr False \<longrightarrow>
            status res = ''success'' \<and> actions res = [] \<and> current_status res = ''Open'' \<and>
            issues t' = issues t"
  proof
    assume h: "f_status (i_fields iss) = ''Open'' \<and>
          fst (transition_issue iss ''In Progress.'' t) = Inr False"
    with sh have l1: "l1 = ?l0" and tr: "transition_issue iss ''In Progress.'' t = (Inr False, t1)"
      by auto
    from transition_issue_False [OF tr] have "issues t1 = issues t" by simp
    with l1 h cur act rest out
    show "status res = ''success'' \<and> actions res = [] \<and> current_status res = ''Open'' \<and>
            issues t' = issues t"
      by simp
  qed
  have f: "f_status (i_fields iss) \<noteq> ''Open'' \<and> f_status (i_fields iss) \<noteq> ''In Progress.'' \<and>
          f_status (i_fields iss) \<noteq> ''Completed'' \<longrightarrow>
            status res = ''success'' \<and> actions res = [] \<and> t' = t"
    using sh cur act rest out by auto
  from a b c d e f show ?thesis by blast
qed

lemma stuck_fields [simp]:
  "issues stuck = issues demo"
  "faults stuck = []"
  "calls stuck = []"
  "workflow stuck = (\<lambda>k s. [])"
  by (simp_all add: stuck_def)

lemma stuck_try_block:
  "try_block \<lparr>i_key = ''PROJ-2'', i_fields = sub ''Open'' (Some alice)\<rparr>
       (Some ''alice'') (Some ''alice'') stuck =
     (Inr \<lparr>subtask_key = ''PROJ-2'', current_status = ''Open'', actions = [],
           status = ''success'', message = ''Processed successfully'',
           assignee = Some ''alice''\<rparr>,
      stuck\<lparr>calls := [Transitions ''PROJ-2'']\<rparr>)"
  by (simp add: try_block_def step_open_def transition_issue_def jira_transitions_def
      remote_def tick_def mk_result_def)

lemma stuck_not_offered:
  "fst (transition_issue \<lparr>i_key = ''PROJ-2'', i_fields = sub ''Open'' (Some alice)\<rparr>
          ''In Progress.'' stuck) = Inr False"
  by code_simp

theorem no_exception_is_success_witness:
  "assignee_name_of \<lparr>i_key = ''PROJ-2'', i_fields = sub ''Open'' (Some alice)\<rparr> = Inr (Some ''alice'') \<and>
   fst (transition_issue \<lparr>i_key = ''PROJ-2'', i_fields = sub ''Open'' (Some alice)\<rparr>
          ''In Progress.'' stuck) = Inr False \<and>
   process_single_subtask \<lparr>i_key = ''PROJ-2'', i_fields = sub ''Open'' (Some alice)\<rparr>
       (Some ''alice'') stuck =
     (Inr \<lparr>subtask_key = ''PROJ-2'', current_status = ''Open'', actions = [],
           status = ''success'', message = ''Processed successfully'',
           assignee = Some ''alice''\<rparr>,
      stuck\<lparr>calls := [Transitions ''PROJ-2'']\<rparr>) \<and>
   issues (stuck\<lparr>calls := [Transitions ''PROJ-2'']\<rparr>) = issues stuck"
proof -
  have who: "assignee_name_of \<lparr>i_key = ''PROJ-2'', i_fields = sub ''Open'' (Some alice)\<rparr> = Inr (Some ''alice'')"
    by (simp add: assignee_name_of_def attr_name_def)
  from no_exception_is_success [OF who stuck_try_block] who stuck_not_offered
  show ?thesis by simp
qed

theorem no_exception_is_success_counterexample:
  "issues jumpy ''PROJ-2'' = Some (sub ''Open'' (Some alice)) \<and>
   should_process_subtask \<lparr>i_key = ''PROJ-2'', i_fields = sub ''Open'' (Some alice)\<rparr> (Some ''alice'')
     = Inr True \<and>
   fst (try_block \<lparr>i_key = ''PROJ-2'', i_fields = sub ''Open'' (Some alice)\<rparr>
          (Some ''alice'') (Some ''alice'') jumpy) =
     Inr \<lparr>subtask_key = ''PROJ-2'', current_status = ''Completed'',
          actions = [''Moved to In Progress''], status = ''skipped'',
          message = ''Already Completed'', assignee = Some ''alice''\<rparr> \<and>
   fst (process_single_subtask \<lparr>i_key = ''PROJ-2'', i_fields = sub ''Open'' (Some alice)\<rparr>
          (Some ''alice'') jumpy) =
     Inr \<lparr>subtask_key = ''PROJ-2'', current_status = ''Completed'',
          actions = [''Moved to In Progress''], status = ''skipped'',
          message = ''Already Completed'', assignee = Some ''alice''\<rparr> \<and>
   ''skipped'' \<noteq> ''success''"
  by code_simp

section \<open>The status a result records\<close>

text \<open>
  C9, as amended. The \<open>current_status\<close> entry of a result is the status the run read
  last for the sub-task. It is the prior status (the one first observed) whenever the
  run did not move the sub-task to \<open>In Progress.\<close>. When the run moved an \<open>Open\<close>
  sub-task to \<open>In Progress.\<close>, the entry is the status read again after the move,
  \<open>In Progress.\<close>, and not the prior \<open>Open\<close>; it is \<open>Open\<close> only when that second
  read failed, in an \<open>error\<close> result.
\<close>

theorem recorded_status:
  assumes "process_loop [k] uname ([], 0, 0) t = (Inr ([res], p, s), t')"
    and "issues t k = Some d" and "unique_ids t"
  shows "(''Moved to In Progress'' \<notin> set (actions res) \<longrightarrow> current_status res = f_status d) \<and>
         (''Moved to In Progress'' \<in> set (actions res) \<longrightarrow>
            f_status d = ''Open'' \<and>
            (current_status res = ''In Progress.'' \<or>
             current_status res = ''Open'' \<and> status res = ''error''))"
proof -
  from process_loop_one [OF assms(1)] assms(2)
  consider (skip) "actions res = []" "current_status res = f_status d"
    | (run) "process_single_subtask \<lparr>i_key = k, i_fields = d\<rparr> uname (tick (GetIssue k) t) = (Inr res, t')"
    by auto
  then show ?thesis
  proof cases
    case skip
    then show ?thesis by simp
  next
    case run
    from assms(3) have ids: "unique_ids (tick (GetIssue k) t)" by simp
    from process_single_subtask_cases [OF run ids] assms(2) show ?thesis by simp
  qed
qed

lemma demo_run2:
  "process_loop [''PROJ-2''] (Some ''alice'') ([], 0, 0) demo =
   (Inr ([\<lparr>subtask_key = ''PROJ-2'', current_status = ''In Progress.'',
          actions = [''Moved to In Progress'', ''Logged 2h work'', ''Moved to Completed''],
          status = ''success'', message = ''Processed successfully'',
          assignee = Some ''alice''\<rparr>], 1, 0),
    snd (process_loop [''PROJ-2''] (Some ''alice'') ([], 0, 0) demo))"
  using demo_run2_result
  by (cases "process_loop [''PROJ-2''] (Some ''alice'') ([], 0, 0) demo") simp

theorem recorded_status_witness:
  "issues demo ''PROJ-2'' = Some (sub ''Open'' (Some alice)) \<and> unique_ids demo \<and>
   fst (process_loop [''PROJ-2''] (Some ''alice'') ([], 0, 0) demo) =
     Inr ([\<lparr>subtask_key = ''PROJ-2'', current_status = ''In Progress.'',
            actions = [''Moved to In Progress'', ''Logged 2h work'', ''Moved to Completed''],
            status = ''success'', message = ''Processed successfully'',
            assignee = Some ''alice''\<rparr>], 1, 0) \<and>
   ''Moved to In Progress'' \<in> set [''Moved to In Progress'', ''Logged 2h work'', ''Moved to Completed''] \<and>
   f_status (sub ''Open'' (Some alice)) = ''Open''"
  using recorded_status [OF demo_run2, of "sub ''Open'' (Some alice)"] demo_run2_result
  by simp

theorem recorded_status_counterexample:
  "map_option f_status (issues demo ''PROJ-2'') = Some ''Open'' \<and>
   fst (process_loop [''PROJ-2''] (Some ''alice'') ([], 0, 0) demo) =
     Inr ([\<lparr>subtask_key = ''PROJ-2'', current_status = ''In Progress.'',
            actions = [''Moved to In Progress'', ''Logged 2h work'', ''Moved to Completed''],
            status = ''success'', message = ''Processed successfully'',
            assignee = Some ''alice''\<rparr>], 1, 0) \<and>
   ''In Progress.'' \<noteq> ''Open''"
  by code_simp

section \<open>Provider errors\<close>

lemma step_open_in_progress:
  assumes "step_open \<lparr>l_subtask = iss, l_current_status = f_status (i_fields iss), l_actions = []\<rparr> t
             = (Inr l1, t1)"
    and "l_current_status l1 = ''In Progress.''"
  shows "i_key (l_subtask l1) = i_key iss \<and>
         l_actions l1 = (if f_status (i_fields iss) = ''Open'' then [''Moved to In Progress''] else [])"
  using assms
  by (auto simp: step_open_def Let_def split: prod.splits sum.splits bool.splits if_splits
      dest!: get_issue_Inr)

text \<open>
  C5. When a remote call raises a provider error inside the \<^verbatim>\<open>try\<close> block of an
  assigned sub-task, the loop records for it the outcome \<open>error\<close> with the message
  \<open>Error: \<close> followed by the error's text, counts it under \<open>skipped\<close>, and goes on
  with the remaining sub-tasks on the tracker as the failed call left it. The entry holds
  the actions recorded before the failing call, call by call: none when the first
  transition call fails; \<open>Moved to In Progress\<close> when the read after the move fails;
  the actions of step 1 when the worklog lookup or the worklog call fails; these and the
  action of step 2 when the transition call to \<open>Completed\<close> fails.
\<close>

theorem provider_error_is_caught:
  fixes k :: key and d :: issue_data and n :: string and msg :: "string option"
    and code :: nat and rendered :: string
  defines "iss \<equiv> \<lparr>i_key = k, i_fields = d\<rparr>"
    and "err \<equiv> JIRAError code msg rendered"
    and "entry \<equiv> (\<lambda>cur acts. \<lparr>subtask_key = k, current_status = cur, actions = acts,
                   status = ''error'', message = ''Error: '' @ format_opt msg,
                   assignee = Some n\<rparr>)"
    and "before \<equiv> (if f_status d = ''Open'' then [''Moved to In Progress''] else [])"
  assumes there: "issues t k = Some d" and fetched: "no_fault 1 t"
    and mine: "f_assignee d = Some a" "u_name a = Some n" "uname = Some n"
  shows "(f_status d = ''Open'' \<and>
          transition_issue iss ''In Progress.'' (tick (GetIssue k) t) = (Inl err, t2) \<longrightarrow>
            process_loop (k # ks) uname (rs, p, s) t =
              process_loop ks uname (rs @ [entry ''Open'' []], p, s + 1) t2) \<and>
         (f_status d = ''Open'' \<and>
          transition_issue iss ''In Progress.'' (tick (GetIssue k) t) = (Inr True, t2) \<and>
          get_issue k t2 = (Inl err, t3) \<longrightarrow>
            process_loop (k # ks) uname (rs, p, s) t =
              process_loop ks uname (rs @ [entry ''Open'' [''Moved to In Progress'']], p, s + 1) t3) \<and>
         (step_open \<lparr>l_subtask = iss, l_current_status = f_status d, l_actions = []\<rparr>
            (tick (GetIssue k) t) = (Inr l1, t2) \<and>
          l_current_status l1 = ''In Progress.'' \<longrightarrow>
            (has_worklog_by_user (l_subtask l1) uname t2 = (Inl err, t3) \<longrightarrow>
               process_loop (k # ks) uname (rs, p, s) t =
                 process_loop ks uname (rs @ [entry ''In Progress.'' before], p, s + 1) t3) \<and>
            (has_worklog_by_user (l_subtask l1) uname t2 = (Inr False, t3) \<and>
             add_worklog (l_subtask l1) ''2h'' t3 = (Inl err, t4) \<longrightarrow>
               process_loop (k # ks) uname (rs, p, s) t =
                 process_loop ks uname (rs @ [entry ''In Progress.'' before], p, s + 1) t4) \<and>
            (has_worklog_by_user (l_subtask l1) uname t2 = (Inr False, t3) \<and>
             add_worklog (l_subtask l1) ''2h'' t3 = (Inr b, t4) \<and>
             transition_issue (l_subtask l1) ''Completed'' t4 = (Inl err, t5) \<longrightarrow>
               process_loop (k # ks) uname (rs, p, s) t =
                 process_loop ks uname
                   (rs @ [entry ''In Progress.'' (before @ [''Logged 2h work''])], p, s + 1) t5) \<and>
            (has_worklog_by_user (l_subtask l1) uname t2 = (Inr True, t3) \<and>
             transition_issue (l_subtask l1) ''Completed'' t3 = (Inl err, t4) \<longrightarrow>
               process_loop (k # ks) uname (rs, p, s) t =
                 process_loop ks uname
                   (rs @ [entry ''In Progress.'' (before @ [''Work already logged, skipped worklog''])],
                    p, s + 1) t4))"
proof -
  let ?t1 = "tick (GetIssue k) t"
  let ?l0 = "\<lparr>l_subtask = iss, l_current_status = f_status d, l_actions = []\<rparr>"
  from fetched have nf: "no_fault (Suc 0) t" by simp
  have fetch: "get_issue k t = (Inr iss, ?t1)"
    unfolding iss_def using nf there by (rule get_issue_ok)
  have sp: "should_process_subtask iss uname = Inr True"
    using mine by (simp add: iss_def should_process_subtask_def hasattr_name_def attr_name_def)
  have who: "assignee_name_of iss = Inr (Some n)"
    using mine(1,2) by (simp add: iss_def assignee_name_of_def attr_name_def)
  have fld: "f_status (i_fields iss) = f_status d" "i_key iss = k" by (simp_all add: iss_def)
  have caught: "process_loop (k # ks) uname (rs, p, s) t =
       process_loop ks uname (rs @ [entry (l_current_status l) (l_actions l)], p, s + 1) t'"
    if "try_block iss uname (Some n) ?t1 = (Inl (err, l), t')" and "i_key (l_subtask l) = k" for l t'
    using that fetch sp who
    by (simp add: process_single_subtask_def mk_result_def err_def entry_def)
  have A: "process_loop (k # ks) uname (rs, p, s) t =
              process_loop ks uname (rs @ [entry ''Open'' []], p, s + 1) t2"
    if "f_status d = ''Open''" "transition_issue iss ''In Progress.'' ?t1 = (Inl err, t2)"
  proof -
    from that fld have "try_block iss uname (Some n) ?t1 = (Inl (err, ?l0), t2)"
      by (simp add: try_block_def step_open_def)
    from caught [OF this] that fld show ?thesis by simp
  qed
  have B: "process_loop (k # ks) uname (rs, p, s) t =
              process_loop ks uname (rs @ [entry ''Open'' [''Moved to In Progress'']], p, s + 1) t3"
    if "f_status d = ''Open''" "transition_issue iss ''In Progress.'' ?t1 = (Inr True, t2)"
      "get_issue k t2 = (Inl err, t3)"
  proof -
    from that fld have "try_block iss uname (Some n) ?t1 =
        (Inl (err, ?l0\<lparr>l_actions := [''Moved to In Progress'']\<rparr>), t3)"
      by (simp add: try_block_def step_open_def)
    from caught [OF this] that fld show ?thesis by simp
  qed
  have C: "(has_worklog_by_user (l_subtask l1) uname t2 = (Inl err, t3) \<longrightarrow>
               process_loop (k # ks) uname (rs, p, s) t =
                 process_loop ks uname (rs @ [entry ''In Progress.'' before], p, s + 1) t3) \<and>
            (has_worklog_by_user (l_subtask l1) uname t2 = (Inr False, t3) \<and>
             add_worklog (l_subtask l1) ''2h'' t3 = (Inl err, t4) \<longrightarrow>
               process_loop (k # ks) uname (rs, p, s) t =
                 process_loop ks uname (rs @ [entry ''In Progress.'' before], p, s + 1) t4) \<and>
            (has_worklog_by_user (l_subtask l1) uname t2 = (Inr False, t3) \<and>
             add_worklog (l_subtask l1) ''2h'' t3 = (Inr b, t4) \<and>
             transition_issue (l_subtask l1) ''Completed'' t4 = (Inl err, t5) \<longrightarrow>
               process_loop (k # ks) uname (rs, p, s) t =
                 process_loop ks uname
                   (rs @ [entry ''In Progress.'' (before @ [''Logged 2h work''])], p, s + 1) t5) \<and>
            (has_worklog_by_user (l_subtask l1) uname t2 = (Inr True, t3) \<and>
             transition_issue (l_subtask l1) ''Completed'' t3 = (Inl err, t4) \<longrightarrow>
               process_loop (k # ks) uname (rs, p, s) t =
                 process_loop ks uname
                   (rs @ [entry ''In Progress.'' (before @ [''Work already logged, skipped worklog''])],
                    p, s + 1) t4)"
    if s1: "step_open ?l0 ?t1 = (Inr l1, t2)" and ip: "l_current_status l1 = ''In Progress.''"
  proof -
    from s1 have s1': "step_open \<lparr>l_subtask = iss, l_current_status = f_status (i_fields iss), l_actions = []\<rparr> ?t1
        = (Inr l1, t2)" using fld by simp
    from step_open_in_progress [OF s1' ip] fld
    have key: "i_key (l_subtask l1) = k" and acts: "l_actions l1 = before"
      by (simp_all add: before_def)
    have c1: "process_loop (k # ks) uname (rs, p, s) t =
                 process_loop ks uname (rs @ [entry ''In Progress.'' before], p, s + 1) t3"
      if "has_worklog_by_user (l_subtask l1) uname t2 = (Inl err, t3)"
    proof -
      from that s1' ip have "try_block iss uname (Some n) ?t1 = (Inl (err, l1), t3)"
        by (simp add: try_block_def step_worklog_def)
      from caught [OF this key] ip acts show ?thesis by simp
    qed
    have c2: "process_loop (k # ks) uname (rs, p, s) t =
                 process_loop ks uname (rs @ [entry ''In Progress.'' before], p, s + 1) t4"
      if "has_worklog_by_user (l_subtask l1) uname t2 = (Inr False, t3)"
        "add_worklog (l_subtask l1) ''2h'' t3 = (Inl err, t4)"
    proof -
      from that s1' ip have "try_block iss uname (Some n) ?t1 = (Inl (err, l1), t4)"
        by (simp add: try_block_def step_worklog_def)
      from caught [OF this key] ip acts show ?thesis by simp
    qed
    have d1: "process_loop (k # ks) uname (rs, p, s) t =
                 process_loop ks uname
                   (rs @ [entry ''In Progress.'' (before @ [''Logged 2h work''])], p, s + 1) t5"
      if "has_worklog_by_user (l_subtask l1) uname t2 = (Inr False, t3)"
        "add_worklog (l_subtask l1) ''2h'' t3 = (Inr b, t4)"
        "transition_issue (l_subtask l1) ''Completed'' t4 = (Inl err, t5)"
    proof -
      from that s1' ip have "try_block iss uname (Some n) ?t1 =
          (Inl (err, l1\<lparr>l_actions := l_actions l1 @ [''Logged 2h work'']\<rparr>), t5)"
        by (simp add: try_block_def step_worklog_def step_complete_def)
      from caught [OF this] key ip acts show ?thesis by simp
    qed
    have d2: "process_loop (k # ks) uname (rs, p, s) t =
                 process_loop ks uname
                   (rs @ [entry ''In Progress.'' (before @ [''Work already logged, skipped worklog''])],
                    p, s + 1) t4"
      if "has_worklog_by_user (l_subtask l1) uname t2 = (Inr True, t3)"
        "transition_issue (l_subtask l1) ''Completed'' t3 = (Inl err, t4)"
    proof -
      from that s1' ip have "try_block iss uname (Some n) ?t1 =
          (Inl (err, l1\<lparr>l_actions := l_actions l1 @ [''Work already logged, skipped worklog'']\<rparr>), t4)"
        by (simp add: try_block_def step_worklog_def step_complete_def)
      from caught [OF this] key ip acts show ?thesis by simp
    qed
    from c1 c2 d1 d2 show ?thesis by blast
  qed
  from A B C show ?thesis by blast
qed

lemma pair_fst: "fst p = a \<Longrightarrow> p = (a, snd p)"
  by (cases p) simp

lemma failing_last_fields [simp]:
  "issues failing_last = issues demo"
  "faults failing_last = [None, None, None, None, None, None, Some bad_request]"
  by (simp_all add: failing_last_def)

lemma failing_at_fields [simp]:
  "issues (failing_at i) = issues demo"
  "no_fault 1 (failing_at (Suc i))"
  by (simp_all add: failing_at_def no_fault_def)

theorem provider_error_is_caught_witness:
  "issues failing_last ''PROJ-2'' = Some (sub ''Open'' (Some alice)) \<and>
   no_fault 1 failing_last \<and>
   fst (process_loop [''PROJ-2'', ''PROJ-3''] (Some ''alice'') ([], 0, 0) failing_last) =
   Inr ([\<lparr>subtask_key = ''PROJ-2'', current_status = ''In Progress.'',
          actions = [''Moved to In Progress'', ''Logged 2h work''], status = ''error'',
          message = ''Error: Bad Request'', assignee = Some ''alice''\<rparr>,
         \<lparr>subtask_key = ''PROJ-3'', current_status = ''Completed'', actions = [],
          status = ''skipped'', message = ''Already Completed'', assignee = Some ''alice''\<rparr>],
        0, 2) \<and>
   fst (process_loop [''PROJ-2''] (Some ''alice'') ([], 0, 0) (failing_at 1)) =
     Inr ([\<lparr>subtask_key = ''PROJ-2'', current_status = ''Open'', actions = [],
            status = ''error'', message = ''Error: Bad Request'', assignee = Some ''alice''\<rparr>], 0, 1) \<and>
   fst (process_loop [''PROJ-2''] (Some ''alice'') ([], 0, 0) (failing_at 3)) =
     Inr ([\<lparr>subtask_key = ''PROJ-2'', current_status = ''Open'',
            actions = [''Moved to In Progress''],
            status = ''error'', message = ''Error: Bad Request'', assignee = Some ''alice''\<rparr>], 0, 1) \<and>
   fst (process_loop [''PROJ-2''] (Some ''alice'') ([], 0, 0) (failing_at 4)) =
     Inr ([\<lparr>subtask_key = ''PROJ-2'', current_status = ''In Progress.'',
            actions = [''Moved to In Progress''],
            status = ''error'', message = ''Error: Bad Request'', assignee = Some ''alice''\<rparr>], 0, 1) \<and>
   fst (process_loop [''PROJ-2''] (Some ''alice'') ([], 0, 0) (failing_at 5)) =
     Inr ([\<lparr>subtask_key = ''PROJ-2'', current_status = ''In Progress.'',
            actions = [''Moved to In Progress''],
            status = ''error'', message = ''Error: Bad Request'', assignee = Some ''alice''\<rparr>], 0, 1) \<and>
   fst (process_loop [''PROJ-5''] (Some ''alice'') ([], 0, 0) (failing_at 2)) =
     Inr ([\<lparr>subtask_key = ''PROJ-5'', current_status = ''In Progress.'',
            actions = [''Work already logged, skipped worklog''],
            status = ''error'', message = ''Error: Bad Request'', assignee = Some ''alice''\<rparr>], 0, 1)"
proof -
  let ?iss = "\<lparr>i_key = ''PROJ-2'', i_fields = sub ''Open'' (Some alice)\<rparr>"
  let ?l0 = "\<lparr>l_subtask = ?iss, l_current_status = f_status (sub ''Open'' (Some alice)), l_actions = []\<rparr>"
  let ?l1 = "\<lparr>l_subtask = \<lparr>i_key = ''PROJ-2'', i_fields = sub ''In Progress.'' (Some alice)\<rparr>,
              l_current_status = ''In Progress.'', l_actions = [''Moved to In Progress'']\<rparr>"
  let ?t1 = "tick (GetIssue ''PROJ-2'') failing_last"
  let ?t2 = "snd (step_open ?l0 ?t1)"
  let ?t3 = "snd (has_worklog_by_user (l_subtask ?l1) (Some ''alice'') ?t2)"
  let ?t4 = "snd (add_worklog (l_subtask ?l1) ''2h'' ?t3)"
  let ?t5 = "snd (transition_issue (l_subtask ?l1) ''Completed'' ?t4)"
  have d: "issues failing_last ''PROJ-2'' = Some (sub ''Open'' (Some alice))" by simp
  have nf0: "no_fault 1 failing_last" by (simp add: no_fault_def)
  have "fst (step_open ?l0 ?t1) = Inr ?l1" by code_simp
  then have h1: "step_open ?l0 ?t1 = (Inr ?l1, ?t2)" by (rule pair_fst)
  have "fst (has_worklog_by_user (l_subtask ?l1) (Some ''alice'') ?t2) = Inr False" by code_simp
  then have h2: "has_worklog_by_user (l_subtask ?l1) (Some ''alice'') ?t2 = (Inr False, ?t3)"
    by (rule pair_fst)
  have "fst (add_worklog (l_subtask ?l1) ''2h'' ?t3) = Inr True" by code_simp
  then have h3: "add_worklog (l_subtask ?l1) ''2h'' ?t3 = (Inr True, ?t4)" by (rule pair_fst)
  have "fst (transition_issue (l_subtask ?l1) ''Completed'' ?t4)
      = Inl (JIRAError 400 (Some ''Bad Request'') ''JiraError HTTP 400'')" by code_simp
  then have h4: "transition_issue (l_subtask ?l1) ''Completed'' ?t4
      = (Inl (JIRAError 400 (Some ''Bad Request'') ''JiraError HTTP 400''), ?t5)" by (rule pair_fst)
  have rest: "fst (process_loop [''PROJ-3''] (Some ''alice'')
     ([\<lparr>subtask_key = ''PROJ-2'', current_status = ''In Progress.'',
        actions = [''Moved to In Progress'', ''Logged 2h work''], status = ''error'',
        message = ''Error: Bad Request'', assignee = Some ''alice''\<rparr>], 0, 1) ?t5) =
   Inr ([\<lparr>subtask_key = ''PROJ-2'', current_status = ''In Progress.'',
          actions = [''Moved to In Progress'', ''Logged 2h work''], status = ''error'',
          message = ''Error: Bad Request'', assignee = Some ''alice''\<rparr>,
         \<lparr>subtask_key = ''PROJ-3'', current_status = ''Completed'', actions = [],
          status = ''skipped'', message = ''Already Completed'', assignee = Some ''alice''\<rparr>],
        0, 2)"
    by code_simp
  from provider_error_is_caught [OF d nf0, where a=alice and n="''alice''" and uname="Some ''alice''"
      and ks="[''PROJ-3'']" and rs="[]" and p=0 and s=0 and msg="Some ''Bad Request''"
      and code=400 and rendered="''JiraError HTTP 400''"
      and ?l1.0="?l1" and ?t2.0="?t2" and ?t3.0="?t3" and ?t4.0="?t4" and ?t5.0="?t5" and b=True]
    h1 h2 h3 h4
  have "process_loop [''PROJ-2'', ''PROJ-3''] (Some ''alice'') ([], 0, 0) failing_last =
      process_loop [''PROJ-3''] (Some ''alice'')
     ([\<lparr>subtask_key = ''PROJ-2'', current_status = ''In Progress.'',
        actions = [''Moved to In Progress'', ''Logged 2h work''], status = ''error'',
        message = ''Error: Bad Request'', assignee = Some ''alice''\<rparr>], 0, 1) ?t5"
    by (simp add: format_opt_def del: process_loop.simps)
  with rest d nf0 have F:
    "issues failing_last ''PROJ-2'' = Some (sub ''Open'' (Some alice)) \<and>
     no_fault 1 failing_last \<and>
     fst (process_loop [''PROJ-2'', ''PROJ-3''] (Some ''alice'') ([], 0, 0) failing_last) =
     Inr ([\<lparr>subtask_key = ''PROJ-2'', current_status = ''In Progress.'',
            actions = [''Moved to In Progress'', ''Logged 2h work''], status = ''error'',
            message = ''Error: Bad Request'', assignee = Some ''alice''\<rparr>,
           \<lparr>subtask_key = ''PROJ-3'', current_status = ''Completed'', actions = [],
            status = ''skipped'', message = ''Already Completed'', assignee = Some ''alice''\<rparr>],
          0, 2)"
    by (simp del: process_loop.simps)
  let ?e = "JIRAError 400 (Some ''Bad Request'') ''JiraError HTTP 400''"
  let ?iss5 = "\<lparr>i_key = ''PROJ-5'', i_fields = sub ''In Progress.'' (Some alice)\<rparr>"
  let ?l5 = "\<lparr>l_subtask = ?iss5, l_current_status = f_status (sub ''In Progress.'' (Some alice)), l_actions = []\<rparr>"
  have d2: "issues (failing_at i) ''PROJ-2'' = Some (sub ''Open'' (Some alice))" for i by simp
  have d5: "issues (failing_at i) ''PROJ-5'' = Some (sub ''In Progress.'' (Some alice))" for i by simp
  have nf: "no_fault 1 (failing_at 1)" "no_fault 1 (failing_at 3)" "no_fault 1 (failing_at 4)"
    "no_fault 1 (failing_at 5)" "no_fault 1 (failing_at 2)"
    by code_simp+
  have m1: "f_assignee (sub s (Some alice)) = Some alice" for s by simp
  have m2: "u_name alice = Some ''alice''" by simp
  have cur: "l_current_status ?l1 = ''In Progress.''" "l_current_status ?l5 = ''In Progress.''" by simp_all
  have st: "f_status (sub ''Open'' (Some alice)) = ''Open''" by simp
  note thm2 = provider_error_is_caught [where ks="[]" and rs="[]" and p=0 and s=0
      and msg="Some ''Bad Request''" and code=400 and rendered="''JiraError HTTP 400''",
      OF _ _ m1 m2 refl]
  \<comment> \<open>the first transition call fails\<close>
  let ?a1 = "tick (GetIssue ''PROJ-2'') (failing_at 1)"
  let ?a2 = "snd (transition_issue ?iss ''In Progress.'' ?a1)"
  have "fst (transition_issue ?iss ''In Progress.'' ?a1) = Inl ?e" by code_simp
  then have a: "transition_issue ?iss ''In Progress.'' ?a1 = (Inl ?e, ?a2)" by (rule pair_fst)
  from thm2 [OF d2 nf(1), THEN conjunct1, rule_format, OF conjI [OF st a]]
  have A: "fst (process_loop [''PROJ-2''] (Some ''alice'') ([], 0, 0) (failing_at 1)) =
     Inr ([\<lparr>subtask_key = ''PROJ-2'', current_status = ''Open'', actions = [],
            status = ''error'', message = ''Error: Bad Request'', assignee = Some ''alice''\<rparr>], 0, 1)"
    by (simp add: format_opt_def del: process_loop.simps(2))
  \<comment> \<open>the read after the move fails\<close>
  let ?b1 = "tick (GetIssue ''PROJ-2'') (failing_at 3)"
  let ?b2 = "snd (transition_issue ?iss ''In Progress.'' ?b1)"
  let ?b3 = "snd (get_issue ''PROJ-2'' ?b2)"
  have "fst (transition_issue ?iss ''In Progress.'' ?b1) = Inr True" by code_simp
  then have b1: "transition_issue ?iss ''In Progress.'' ?b1 = (Inr True, ?b2)" by (rule pair_fst)
  have "fst (get_issue ''PROJ-2'' ?b2) = Inl ?e" by code_simp
  then have b2: "get_issue ''PROJ-2'' ?b2 = (Inl ?e, ?b3)" by (rule pair_fst)
  from thm2 [OF d2 nf(2), THEN conjunct2, THEN conjunct1, rule_format, OF conjI [OF st conjI [OF b1 b2]]]
  have B: "fst (process_loop [''PROJ-2''] (Some ''alice'') ([], 0, 0) (failing_at 3)) =
     Inr ([\<lparr>subtask_key = ''PROJ-2'', current_status = ''Open'',
            actions = [''Moved to In Progress''],
            status = ''error'', message = ''Error: Bad Request'', assignee = Some ''alice''\<rparr>], 0, 1)"
    by (simp add: format_opt_def del: process_loop.simps(2))
  \<comment> \<open>the worklog lookup fails\<close>
  let ?c1 = "tick (GetIssue ''PROJ-2'') (failing_at 4)"
  let ?c2 = "snd (step_open ?l0 ?c1)"
  let ?c3 = "snd (has_worklog_by_user (l_subtask ?l1) (Some ''alice'') ?c2)"
  have "fst (step_open ?l0 ?c1) = Inr ?l1" by code_simp
  then have c1: "step_open ?l0 ?c1 = (Inr ?l1, ?c2)" by (rule pair_fst)
  have "fst (has_worklog_by_user (l_subtask ?l1) (Some ''alice'') ?c2) = Inl ?e" by code_simp
  then have c2: "has_worklog_by_user (l_subtask ?l1) (Some ''alice'') ?c2 = (Inl ?e, ?c3)"
    by (rule pair_fst)
  from thm2 [OF d2 nf(3), THEN conjunct2, THEN conjunct2, rule_format, OF conjI [OF c1 cur(1)],
      THEN conjunct1, rule_format, OF c2]
  have C: "fst (process_loop [''PROJ-2''] (Some ''alice'') ([], 0, 0) (failing_at 4)) =
     Inr ([\<lparr>subtask_key = ''PROJ-2'', current_status = ''In Progress.'',
            actions = [''Moved to In Progress''],
            status = ''error'', message = ''Error: Bad Request'', assignee = Some ''alice''\<rparr>], 0, 1)"
    by (simp add: format_opt_def del: process_loop.simps(2))
  \<comment> \<open>the worklog call fails\<close>
  let ?d1 = "tick (GetIssue ''PROJ-2'') (failing_at 5)"
  let ?d2 = "snd (step_open ?l0 ?d1)"
  let ?d3 = "snd (has_worklog_by_user (l_subtask ?l1) (Some ''alice'') ?d2)"
  let ?d4 = "snd (add_worklog (l_subtask ?l1) ''2h'' ?d3)"
  have "fst (step_open ?l0 ?d1) = Inr ?l1" by code_simp
  then have e1: "step_open ?l0 ?d1 = (Inr ?l1, ?d2)" by (rule pair_fst)
  have "fst (has_worklog_by_user (l_subtask ?l1) (Some ''alice'') ?d2) = Inr False" by code_simp
  then have e2: "has_worklog_by_user (l_subtask ?l1) (Some ''alice'') ?d2 = (Inr False, ?d3)"
    by (rule pair_fst)
  have "fst (add_worklog (l_subtask ?l1) ''2h'' ?d3) = Inl ?e" by code_simp
  then have e3: "add_worklog (l_subtask ?l1) ''2h'' ?d3 = (Inl ?e, ?d4)" by (rule pair_fst)
  from thm2 [OF d2 nf(4), THEN conjunct2, THEN conjunct2, rule_format, OF conjI [OF e1 cur(1)],
      THEN conjunct2, THEN conjunct1, rule_format, OF conjI [OF e2 e3]]
  have D: "fst (process_loop [''PROJ-2''] (Some ''alice'') ([], 0, 0) (failing_at 5)) =
     Inr ([\<lparr>subtask_key = ''PROJ-2'', current_status = ''In Progress.'',
            actions = [''Moved to In Progress''],
            status = ''error'', message = ''Error: Bad Request'', assignee = Some ''alice''\<rparr>], 0, 1)"
    by (simp add: format_opt_def del: process_loop.simps(2))
  \<comment> \<open>the transition call to Completed fails, the worklog being there already\<close>
  let ?f1 = "tick (GetIssue ''PROJ-5'') (failing_at 2)"
  let ?f3 = "snd (has_worklog_by_user (l_subtask ?l5) (Some ''alice'') ?f1)"
  let ?f4 = "snd (transition_issue (l_subtask ?l5) ''Completed'' ?f3)"
  have f1: "step_open ?l5 ?f1 = (Inr ?l5, ?f1)" by (simp add: step_open_def)
  have "fst (has_worklog_by_user (l_subtask ?l5) (Some ''alice'') ?f1) = Inr True" by code_simp
  then have f2: "has_worklog_by_user (l_subtask ?l5) (Some ''alice'') ?f1 = (Inr True, ?f3)"
    by (rule pair_fst)
  have "fst (transition_issue (l_subtask ?l5) ''Completed'' ?f3) = Inl ?e" by code_simp
  then have f3: "transition_issue (l_subtask ?l5) ''Completed'' ?f3 = (Inl ?e, ?f4)" by (rule pair_fst)
  from thm2 [OF d5 nf(5), THEN conjunct2, THEN conjunct2, rule_format, OF conjI [OF f1 cur(2)],
      THEN conjunct2, THEN conjunct2, THEN conjunct2, rule_format, OF conjI [OF f2 f3]]
  have E: "fst (process_loop [''PROJ-5''] (Some ''alice'') ([], 0, 0) (failing_at 2)) =
     Inr ([\<lparr>subtask_key = ''PROJ-5'', current_status = ''In Progress.'',
            actions = [''Work already logged, skipped worklog''],
            status = ''error'', message = ''Error: Bad Request'', assignee = Some ''alice''\<rparr>], 0, 1)"
    by (simp add: format_opt_def del: process_loop.simps(2))
  from F A B C D E show ?thesis by blast
qed

text \<open>
  The fetch of a sub-task comes before the \<^verbatim>\<open>try\<close> block: what it raises is not
  caught, and ends the loop with no result at all.
\<close>

lemma fetch_error_ends_loop:
  "get_issue k t = (Inl e, t1) \<Longrightarrow> process_loop (k # ks) uname (rs, p, s) t = (Inl e, t1)"
  by simp

lemma fetch_error_ends_loop_example:
  "fst (process_loop [''PROJ-2'', ''PROJ-3''] (Some ''alice'') ([], 0, 0)
          (demo\<lparr>faults := [Some bad_request]\<rparr>)) = Inl bad_request"
  by code_simp

section \<open>The batch\<close>

lemma try_block_status:
  "try_block iss uname who t = (Inr res, t') \<Longrightarrow>
   status res = ''success'' \<or> status res = ''skipped''"
  by (auto simp: try_block_def mk_result_def split: prod.splits sum.splits if_splits)

lemma except_JIRAError_status:
  "except_JIRAError e l who = Inr res \<Longrightarrow> status res = ''error''"
  by (cases e) (auto simp: mk_result_def)

lemma process_single_subtask_status:
  assumes "process_single_subtask iss uname t = (Inr res, t')"
  shows "status res = ''success'' \<or> status res = ''skipped'' \<or> status res = ''error''"
proof (cases "assignee_name_of iss")
  case (Inl e)
  with assms show ?thesis by (simp add: process_single_subtask_def)
next
  case (Inr who)
  obtain r1 t1 where tb: "try_block iss uname who t = (r1, t1)"
    by (cases "try_block iss uname who t")
  show ?thesis
  proof (cases r1)
    case (Inl x)
    with tb Inr assms have "except_JIRAError (fst x) (snd x) who = Inr res"
      by (cases x) (simp add: process_single_subtask_def)
    then show ?thesis by (simp add: except_JIRAError_status)
  next
    case res: (Inr r)
    with tb Inr assms have "r = res" by (simp add: process_single_subtask_def)
    with tb res show ?thesis using try_block_status [of iss uname who t res t1] by auto
  qed
qed

lemma process_loop_step:
  assumes "process_loop (k # ks) uname (rs, p, s) t = (Inr out, t')"
  shows "\<exists>r t1. (status r = ''success'' \<or> status r = ''skipped'' \<or> status r = ''error'') \<and>
           process_loop ks uname
             (rs @ [r], if status r = ''success'' then p + 1 else p,
              if status r = ''success'' then s else s + 1) t1 = (Inr out, t')"
proof -
  obtain r1 t1 where g: "get_issue k t = (r1, t1)" by (cases "get_issue k t")
  with assms obtain iss where r1: "r1 = Inr iss" by (cases r1) auto
  show ?thesis
  proof (cases "should_process_subtask iss uname")
    case (Inl e)
    with assms g r1 show ?thesis by simp
  next
    case (Inr b)
    show ?thesis
    proof (cases b)
      case False
      with Inr assms g r1 obtain who where "assignee_name_of iss = Inr who"
        by (cases "assignee_name_of iss") auto
      with False Inr assms g r1 show ?thesis
        by (intro exI [where x="\<lparr>subtask_key = i_key iss, current_status = f_status (i_fields iss),
              actions = [], status = ''skipped'',
              message = ''Not assigned to me (assignee='' @ format_opt who @ '')'',
              assignee = who\<rparr>"] exI [where x=t1]) simp
    next
      case True
      obtain r2 t2 where ps: "process_single_subtask iss uname t1 = (r2, t2)"
        by (cases "process_single_subtask iss uname t1")
      with True Inr assms g r1 obtain res where r2: "r2 = Inr res" by (cases r2) auto
      from ps r2 have "status res = ''success'' \<or> status res = ''skipped'' \<or> status res = ''error''"
        by (simp add: process_single_subtask_status)
      with True Inr assms g r1 ps r2 show ?thesis
        by (intro exI [where x=res] exI [where x=t2]) (simp split: if_splits)
    qed
  qed
qed

lemma process_loop_counts:
  "process_loop ks uname (rs, p, s) t = (Inr (rs', p', s'), t') \<Longrightarrow>
   \<exists>new. rs' = rs @ new \<and> length new = length ks \<and>
     (\<forall>r \<in> set new. status r = ''success'' \<or> status r = ''skipped'' \<or> status r = ''error'') \<and>
     p' = p + length (filter (\<lambda>r. status r = ''success'') new) \<and>
     s' = s + length (filter (\<lambda>r. status r \<noteq> ''success'') new)"
proof (induction ks arbitrary: rs p s t)
  case Nil
  then show ?case by simp
next
  case (Cons k ks)
  from process_loop_step [OF Cons.prems] obtain r t1
    where st: "status r = ''success'' \<or> status r = ''skipped'' \<or> status r = ''error''"
      and rest: "process_loop ks uname
             (rs @ [r], if status r = ''success'' then p + 1 else p,
              if status r = ''success'' then s else s + 1) t1 = (Inr (rs', p', s'), t')"
    by blast
  from Cons.IH [OF rest] obtain new where new: "rs' = (rs @ [r]) @ new" "length new = length ks"
    "\<forall>r \<in> set new. status r = ''success'' \<or> status r = ''skipped'' \<or> status r = ''error''"
    "p' = (if status r = ''success'' then p + 1 else p) + length (filter (\<lambda>r. status r = ''success'') new)"
    "s' = (if status r = ''success'' then s else s + 1) + length (filter (\<lambda>r. status r \<noteq> ''success'') new)"
    by blast
  with st show ?case
    by (intro exI [where x="r # new"]) auto
qed

lemma three_way_count:
  assumes "\<forall>r \<in> set rs. status r = ''success'' \<or> status r = ''skipped'' \<or> status r = ''error''"
  shows "length (filter (\<lambda>r. status r \<noteq> ''success'') rs) =
         length (filter (\<lambda>r. status r = ''skipped'') rs) + length (filter (\<lambda>r. status r = ''error'') rs)"
  using assms by (induction rs) auto

text \<open>
  C6. In the summary of a batch, \<open>total\<close> is the number of sub-tasks of the parent,
  \<open>processed\<close> is the number of results with the outcome \<open>success\<close>, and \<open>skipped\<close>
  is the number of all other results: those with the outcome \<open>skipped\<close> and those with
  the outcome \<open>error\<close> together. There is one result per sub-task.
\<close>

theorem summary_counts:
  assumes "process_story_subtasks story_key t = (Inr out, t')"
  shows "\<exists>parent. issues t story_key = Some parent \<and>
           total_count (summary out) = length (f_subtasks parent) \<and>
           length (results out) = length (f_subtasks parent) \<and>
           processed (summary out) = length (filter (\<lambda>r. status r = ''success'') (results out)) \<and>
           skipped (summary out) = length (filter (\<lambda>r. status r \<noteq> ''success'') (results out)) \<and>
           skipped (summary out) =
             length (filter (\<lambda>r. status r = ''skipped'') (results out)) +
             length (filter (\<lambda>r. status r = ''error'') (results out))"
proof -
  obtain r1 t1 where cu: "get_current_user t = (r1, t1)" by (cases "get_current_user t")
  with assms obtain u where r1: "r1 = Inr u" by (cases r1) (auto simp: process_story_subtasks_def)
  from cu have i1: "issues t1 = issues t"
    by (auto simp: get_current_user_def jira_myself_def remote_def Let_def split: option.splits)
  obtain r2 t2 where gs: "get_subtasks story_key t1 = (r2, t2)" by (cases "get_subtasks story_key t1")
  with assms cu r1 obtain subtasks where r2: "r2 = Inr subtasks"
    by (cases r2) (auto simp: process_story_subtasks_def)
  from gs r2 obtain parent where par: "issues t1 story_key = Some parent"
    and subs: "subtasks = f_subtasks parent"
    by (auto simp: get_subtasks_def split: prod.splits sum.splits dest!: get_issue_Inr)
  obtain r3 t3 where lp: "process_loop subtasks (username u) ([], 0, 0) t2 = (r3, t3)"
    by (cases "process_loop subtasks (username u) ([], 0, 0) t2")
  with assms cu r1 gs r2 obtain rs p s where r3: "r3 = Inr (rs, p, s)"
    by (cases r3) (auto simp: process_story_subtasks_def)
  with assms cu r1 gs r2 lp
  have out: "out = \<lparr>results = rs, summary = \<lparr>total_count = length subtasks, processed = p, skipped = s\<rparr>\<rparr>"
    by (simp add: process_story_subtasks_def)
  from process_loop_counts [of subtasks "username u" "[]" 0 0 t2 rs p s t3] lp r3
  have n: "length rs = length subtasks"
    and st: "\<forall>r \<in> set rs. status r = ''success'' \<or> status r = ''skipped'' \<or> status r = ''error''"
    and p: "p = length (filter (\<lambda>r. status r = ''success'') rs)"
    and s: "s = length (filter (\<lambda>r. status r \<noteq> ''success'') rs)"
    by auto
  from par i1 subs out n p s three_way_count [OF st] show ?thesis by simp
qed

lemma failing_later_run:
  "fst (process_story_subtasks ''PROJ-1'' failing_later) =
   Inr \<lparr>results =
        [\<lparr>subtask_key = ''PROJ-2'', current_status = ''In Progress.'',
            actions = [''Moved to In Progress''], status = ''error'',
            message = ''Error: Bad Request'', assignee = Some ''alice''\<rparr>,
         \<lparr>subtask_key = ''PROJ-3'', current_status = ''Completed'',
            actions = [], status = ''skipped'',
            message = ''Already Completed'', assignee = Some ''alice''\<rparr>,
         \<lparr>subtask_key = ''PROJ-4'', current_status = ''Open'', actions = [],
            status = ''skipped'',
            message = ''Not assigned to me (assignee=bob)'',
            assignee = Some ''bob''\<rparr>,
         \<lparr>subtask_key = ''PROJ-5'', current_status = ''In Progress.'',
            actions = [''Work already logged, skipped worklog'', ''Moved to Completed''],
            status = ''success'', message = ''Processed successfully'',
            assignee = Some ''alice''\<rparr>,
         \<lparr>subtask_key = ''PROJ-6'', current_status = ''Blocked'',
            actions = [], status = ''skipped'',
            message = ''Not assigned to me (assignee=None)'',
            assignee = None\<rparr>],
        summary = \<lparr>total_count = 5, processed = 1, skipped = 4\<rparr>\<rparr>"
  by code_simp

theorem summary_counts_witness:
  "fst (process_story_subtasks ''PROJ-1'' failing_later) =
   Inr \<lparr>results =
        [\<lparr>subtask_key = ''PROJ-2'', current_status = ''In Progress.'',
            actions = [''Moved to In Progress''], status = ''error'',
            message = ''Error: Bad Request'', assignee = Some ''alice''\<rparr>,
         \<lparr>subtask_key = ''PROJ-3'', current_status = ''Completed'',
            actions = [], status = ''skipped'',
            message = ''Already Completed'', assignee = Some ''alice''\<rparr>,
         \<lparr>subtask_key = ''PROJ-4'', current_status = ''Open'', actions = [],
            status = ''skipped'',
            message = ''Not assigned to me (assignee=bob)'',
            assignee = Some ''bob''\<rparr>,
         \<lparr>subtask_key = ''PROJ-5'', current_status = ''In Progress.'',
            actions = [''Work already logged, skipped worklog'', ''Moved to Completed''],
            status = ''success'', message = ''Processed successfully'',
            assignee = Some ''alice''\<rparr>,
         \<lparr>subtask_key = ''PROJ-6'', current_status = ''Blocked'',
            actions = [], status = ''skipped'',
            message = ''Not assigned to me (assignee=None)'',
            assignee = None\<rparr>],
        summary = \<lparr>total_count = 5, processed = 1, skipped = 4\<rparr>\<rparr> \<and>
   map_option (\<lambda>d. length (f_subtasks d)) (issues failing_later ''PROJ-1'') = Some 5"
proof -
  let ?run = "process_story_subtasks ''PROJ-1'' failing_later"
  obtain r T where run: "?run = (r, T)" by (cases ?run)
  with failing_later_run have r: "fst ?run = r" by simp
  from run obtain out where out: "?run = (Inr out, T)"
    using r [symmetric] unfolding failing_later_run by simp
  from summary_counts [OF out] obtain parent
    where "issues failing_later ''PROJ-1'' = Some parent"
      and "total_count (summary out) = length (f_subtasks parent)"
    by blast
  moreover from out run r have "total_count (summary out) = 5"
    unfolding failing_later_run by auto
  ultimately have "map_option (\<lambda>d. length (f_subtasks d)) (issues failing_later ''PROJ-1'') = Some 5"
    by simp
  with failing_later_run show ?thesis by simp
qed

section \<open>No status moves backward\<close>

lemma process_loop_progress:
  "unique_ids t \<Longrightarrow> progress t (snd (process_loop ks uname acc t))"
proof (induction ks arbitrary: acc t)
  case Nil
  then show ?case by simp
next
  case (Cons k ks)
  obtain rs p s where acc: "acc = (rs, p, s)" by (cases acc)
  obtain r1 t1 where g: "get_issue k t = (r1, t1)" by (cases "get_issue k t")
  then have t1: "t1 = tick (GetIssue k) t" using get_issue_snd [of k t] by simp
  then have p1: "progress t t1" and u1: "unique_ids t1" using Cons.prems by simp_all
  note rest = Cons.IH [THEN progress_trans [OF p1]]
  show ?case
  proof (cases r1)
    case (Inl e)
    with g acc p1 show ?thesis by simp
  next
    case (Inr iss)
    with g have snap: "issues t1 (i_key iss) = Some (i_fields iss)"
      by (auto dest: get_issue_Inr)
    show ?thesis
    proof (cases "should_process_subtask iss uname")
      case (Inl e)
      with g Inr acc p1 show ?thesis by simp
    next
      case sp: (Inr b)
      show ?thesis
      proof (cases b)
        case False
        with sp g Inr acc p1 rest [OF u1] show ?thesis
          by (cases "assignee_name_of iss") simp_all
      next
        case True
        obtain r2 t2 where ps: "process_single_subtask iss uname t1 = (r2, t2)"
          by (cases "process_single_subtask iss uname t1")
        from process_single_subtask_cases [OF ps u1 snap] have p2: "progress t1 t2" by simp
        with p1 have p12: "progress t t2" by (rule progress_trans)
        from p2 u1 have u2: "unique_ids t2" by (rule progress_unique_ids)
        note rest2 = Cons.IH [OF u2, THEN progress_trans [OF p12]]
        from True sp g Inr acc ps p12 rest2 show ?thesis
          by (cases r2) simp_all
      qed
    qed
  qed
qed

text \<open>
  C7. On a tracker whose transitions have different identifiers, one run of the
  advancement workflow, however it ends, leaves every issue with the status it had or
  with a status further along \<open>Open\<close>, \<open>In Progress.\<close>, \<open>Completed\<close>: no status
  has moved backward.
\<close>

theorem status_never_regresses:
  assumes "unique_ids t"
  shows "advanced t (snd (process_story_subtasks story_key t))"
proof -
  obtain r1 t1 where cu: "get_current_user t = (r1, t1)" by (cases "get_current_user t")
  then have t1: "t1 = tick Myself t"
    by (auto simp: get_current_user_def jira_myself_def remote_def Let_def split: option.splits)
  then have p1: "progress t t1" and u1: "unique_ids t1" using assms by simp_all
  obtain r2 t2 where gs: "get_subtasks story_key t1 = (r2, t2)" by (cases "get_subtasks story_key t1")
  then have t2: "t2 = tick (GetIssue story_key) t1"
    using get_issue_snd [of story_key t1]
    by (auto simp: get_subtasks_def split: prod.splits sum.splits)
  then have p2: "progress t t2" and u2: "unique_ids t2"
    using p1 u1 progress_trans [OF p1, of t2] by simp_all
  have "progress t (snd (process_story_subtasks story_key t))"
  proof (cases r1)
    case (Inl e)
    with cu p1 show ?thesis by (simp add: process_story_subtasks_def)
  next
    case u: (Inr u)
    show ?thesis
    proof (cases r2)
      case (Inl e)
      with cu u gs p2 show ?thesis by (simp add: process_story_subtasks_def)
    next
      case (Inr subtasks)
      have "progress t (snd (process_loop subtasks (username u) ([], 0, 0) t2))"
        using p2 process_loop_progress [OF u2] by (rule progress_trans)
      with cu u gs Inr show ?thesis
        by (auto simp: process_story_subtasks_def split: prod.splits sum.splits)
    qed
  qed
  then show ?thesis by (rule progress_advanced)
qed

theorem status_never_regresses_witness:
  "unique_ids demo \<and>
   advanced demo (snd (process_story_subtasks ''PROJ-1'' demo)) \<and>
   map (\<lambda>k. map_option f_status (issues demo k))
       [''PROJ-2'', ''PROJ-3'', ''PROJ-4'', ''PROJ-5'', ''PROJ-6''] =
     [Some ''Open'', Some ''Completed'', Some ''Open'', Some ''In Progress.'', Some ''Blocked''] \<and>
   map (\<lambda>k. map_option f_status (issues (snd (process_story_subtasks ''PROJ-1'' demo)) k))
       [''PROJ-2'', ''PROJ-3'', ''PROJ-4'', ''PROJ-5'', ''PROJ-6''] =
     [Some ''Completed'', Some ''Completed'', Some ''Open'', Some ''Completed'', Some ''Blocked'']"
proof -
  have "map (\<lambda>k. map_option f_status (issues (snd (process_story_subtasks ''PROJ-1'' demo)) k))
       [''PROJ-2'', ''PROJ-3'', ''PROJ-4'', ''PROJ-5'', ''PROJ-6''] =
     [Some ''Completed'', Some ''Completed'', Some ''Open'', Some ''Completed'', Some ''Blocked'']"
    by code_simp
  with status_never_regresses [OF demo_unique_ids, of "''PROJ-1''"] show ?thesis by simp
qed

section \<open>The creation loop\<close>

lemma creation_calls_append:
  "creation_calls (xs @ ys) = creation_calls xs @ creation_calls ys"
  by (induction xs rule: creation_calls.induct) simp_all

lemma create_single_subtask_success:
  "create_single_subtask self pk summ pid tid uname t = (Inr r, t') \<Longrightarrow>
   c_status r = ''success'' \<and> c_summary r = summ"
  by (auto simp: create_single_subtask_def Let_def split: prod.splits sum.splits)

lemma create_single_subtask_calls:
  "creation_calls (calls (snd (create_single_subtask self pk summ pid tid uname t)))
     = creation_calls (calls t) @ [summ]"
  by (auto simp: create_single_subtask_def create_subtask_def jira_create_issue_def
      assign_issue_def jira_assign_issue_def remote_def Let_def creation_calls_append
      split: prod.splits sum.splits option.splits)

lemma create_single_subtask_dom:
  "dom (issues t) \<subseteq> dom (issues (snd (create_single_subtask self pk summ pid tid uname t)))"
  by (auto simp: create_single_subtask_def create_subtask_def jira_create_issue_def
      assign_issue_def jira_assign_issue_def remote_def Let_def
      split: prod.splits sum.splits option.splits if_splits)

lemma length_attempt_outcomes [simp]:
  "length (attempt_outcomes self sk ss pid tid uname t) = length ss"
  by (induction ss arbitrary: t) (auto split: prod.splits)

lemma create_loop_outcomes:
  "fst (create_loop self sk ss pid tid uname (entries, failed_count) t) =
     (entries @ map2 entry_of ss (attempt_outcomes self sk ss pid tid uname t),
      failed_count + length (filter isl (attempt_outcomes self sk ss pid tid uname t)))"
proof (induction ss arbitrary: entries failed_count t)
  case Nil
  then show ?case by simp
next
  case (Cons summ rest)
  obtain r t1 where a: "create_single_subtask self sk summ pid tid uname t = (r, t1)"
    by (cases "create_single_subtask self sk summ pid tid uname t")
  show ?case
  proof (cases r)
    case (Inl e)
    with a Cons.IH [of "entries @ [\<lparr>c_key = None, c_summary = summ, c_status = ''error'', c_message = str e\<rparr>]"
        "failed_count + 1" t1]
    show ?thesis by (simp add: entry_of_def)
  next
    case (Inr x)
    with a Cons.IH [of "entries @ [x]" failed_count t1]
    show ?thesis by (simp add: entry_of_def)
  qed
qed

lemma create_loop_calls:
  "creation_calls (calls (snd (create_loop self sk ss pid tid uname acc t)))
     = creation_calls (calls t) @ ss"
proof (induction ss arbitrary: acc t)
  case Nil
  then show ?case by simp
next
  case (Cons summ rest)
  obtain entries failed_count where acc: "acc = (entries, failed_count)" by (cases acc)
  obtain r t1 where a: "create_single_subtask self sk summ pid tid uname t = (r, t1)"
    by (cases "create_single_subtask self sk summ pid tid uname t")
  with create_single_subtask_calls [of self sk summ pid tid uname t]
  have c1: "creation_calls (calls t1) = creation_calls (calls t) @ [summ]" by simp
  show ?case using acc a c1 Cons.IH [of _ t1] by (cases r) simp_all
qed

lemma create_loop_dom:
  "dom (issues t) \<subseteq> dom (issues (snd (create_loop self sk ss pid tid uname acc t)))"
proof (induction ss arbitrary: acc t)
  case Nil
  then show ?case by simp
next
  case (Cons summ rest)
  obtain entries failed_count where acc: "acc = (entries, failed_count)" by (cases acc)
  obtain r t1 where a: "create_single_subtask self sk summ pid tid uname t = (r, t1)"
    by (cases "create_single_subtask self sk summ pid tid uname t")
  with create_single_subtask_dom [of t self sk summ pid tid uname]
  have "dom (issues t) \<subseteq> dom (issues t1)" by simp
  with acc a Cons.IH [of t1] show ?case by (cases r) (simp_all, blast+)
qed

lemma error_entries:
  assumes "\<forall>r \<in> set outs. \<forall>x. r = Inr x \<longrightarrow> c_status x = ''success''"
    and "length ss = length outs"
  shows "length (filter (\<lambda>x. c_status x = ''error'') (map2 entry_of ss outs)) = length (filter isl outs)"
  using assms(2,1)
proof (induction ss outs rule: list_induct2)
  case Nil
  then show ?case by simp
next
  case (Cons s ss r outs)
  then show ?case by (cases r) (auto simp: entry_of_def)
qed

lemma attempt_outcomes_success:
  "\<forall>r \<in> set (attempt_outcomes self sk ss pid tid uname t). \<forall>x. r = Inr x \<longrightarrow> c_status x = ''success''"
proof (induction ss arbitrary: t)
  case Nil
  then show ?case by simp
next
  case (Cons summ rest)
  obtain r t1 where a: "create_single_subtask self sk summ pid tid uname t = (r, t1)"
    by (cases "create_single_subtask self sk summ pid tid uname t")
  with Cons.IH [of t1] create_single_subtask_success [of self sk summ pid tid uname t _ t1]
  show ?case by auto
qed

lemma get_current_user_snd: "snd (get_current_user t) = tick Myself t"
  by (simp add: get_current_user_def jira_myself_def remote_def Let_def split: option.splits)

lemma get_subtask_issue_type_id_snd: "snd (get_subtask_issue_type_id t) = tick IssueTypes t"
  by (simp add: get_subtask_issue_type_id_def get_issue_types_def jira_issue_types_def remote_def
      split: option.splits)

lemma get_project_snd: "snd (get_project k t) = tick (GetIssue k) t"
  using get_issue_snd [of k t]
  by (auto simp: get_project_def split: prod.splits sum.splits)

lemma creation_calls_tick:
  "creation_calls (calls (tick c t)) = creation_calls (calls t) @ creation_calls [c]"
  by (simp add: creation_calls_append)

lemma length_templates [simp]: "length SUBTASK_TEMPLATES = 7"
  by (simp add: SUBTASK_TEMPLATES_def)

text \<open>
  C8. When the caller, the sub-task issue type and the parent's project are resolved,
  the creation workflow makes exactly seven creation calls, one per template in the
  order of the templates, whatever the attempts raise. The returned list has one entry
  per template, an attempt that raised giving an \<open>error\<close> entry with the exception's
  message; \<open>total\<close> is 7, \<open>failed\<close> is the number of attempts that raised and
  \<open>created\<close> is 7 minus it. So when exactly one attempt raises, the summary is
  total 7, created 6, failed 1, and exactly one entry has the outcome \<open>error\<close>.
\<close>

theorem seven_attempts:
  assumes "fst (get_current_user t) = Inr cu"
    and "fst (get_subtask_issue_type_id (tick Myself t)) = Inr (Some type_id)"
    and "type_id \<noteq> []"
    and "fst (get_project story_key (tick IssueTypes (tick Myself t))) = Inr pr"
    and "outs = attempt_outcomes self story_key SUBTASK_TEMPLATES (p_id pr) type_id (username cu)
                  (tick (GetIssue story_key) (tick IssueTypes (tick Myself t)))"
  shows "\<exists>out. fst (create_subtasks self story_key t) = Inr out \<and>
           creation_calls (calls (snd (create_subtasks self story_key t)))
             = creation_calls (calls t) @ SUBTASK_TEMPLATES \<and>
           length outs = 7 \<and>
           created out = map2 entry_of SUBTASK_TEMPLATES outs \<and>
           c_total (c_stats out) = 7 \<and>
           c_failed (c_stats out) = length (filter isl outs) \<and>
           c_created (c_stats out) = 7 - length (filter isl outs) \<and>
           (length (filter isl outs) = 1 \<longrightarrow>
              c_created (c_stats out) = 6 \<and> c_failed (c_stats out) = 1 \<and>
              length (filter (\<lambda>x. c_status x = ''error'') (created out)) = 1) \<and>
           (\<forall>i<7. \<forall>e. outs ! i = Inl e \<longrightarrow>
              created out ! i = \<lparr>c_key = None, c_summary = SUBTASK_TEMPLATES ! i,
                                  c_status = ''error'', c_message = str e\<rparr>)"
proof -
  let ?t1 = "tick Myself t"
  let ?t2 = "tick IssueTypes ?t1"
  let ?t3 = "tick (GetIssue story_key) ?t2"
  let ?loop = "create_loop self story_key SUBTASK_TEMPLATES (p_id pr) type_id (username cu) ([], 0) ?t3"
  let ?n = "length (filter isl outs)"
  let ?out = "\<lparr>created = map2 entry_of SUBTASK_TEMPLATES outs,
               c_stats = \<lparr>c_total = 7, c_created = 7 - ?n, c_failed = ?n\<rparr>\<rparr>"
  have s1: "get_current_user t = (Inr cu, ?t1)"
    using assms(1) get_current_user_snd [of t] by (cases "get_current_user t") simp
  have s2: "get_subtask_issue_type_id ?t1 = (Inr (Some type_id), ?t2)"
    using assms(2) get_subtask_issue_type_id_snd [of ?t1]
    by (cases "get_subtask_issue_type_id ?t1") simp
  have s3: "get_project story_key ?t2 = (Inr pr, ?t3)"
    using assms(4) get_project_snd [of story_key ?t2]
    by (cases "get_project story_key ?t2") simp
  have l: "fst ?loop = (map2 entry_of SUBTASK_TEMPLATES outs, ?n)"
    using create_loop_outcomes [of self story_key SUBTASK_TEMPLATES "p_id pr" type_id "username cu" "[]" 0 ?t3]
    by (simp add: assms(5))
  have run: "create_subtasks self story_key t = (Inr ?out, snd ?loop)"
    using s1 s2 s3 l assms(3)
    by (cases ?loop) (simp add: create_subtasks_def truthy_def)
  have len: "length outs = 7" by (simp add: assms(5))
  have calls: "creation_calls (calls (snd ?loop)) = creation_calls (calls t) @ SUBTASK_TEMPLATES"
    by (simp add: create_loop_calls creation_calls_append)
  have errs: "length (filter (\<lambda>x. c_status x = ''error'') (map2 entry_of SUBTASK_TEMPLATES outs)) = ?n"
    using attempt_outcomes_success len unfolding assms(5)
    by (intro error_entries) simp_all
  have nth: "\<forall>i<7. \<forall>e. outs ! i = Inl e \<longrightarrow>
      map2 entry_of SUBTASK_TEMPLATES outs ! i =
        \<lparr>c_key = None, c_summary = SUBTASK_TEMPLATES ! i, c_status = ''error'', c_message = str e\<rparr>"
    using len by (simp add: entry_of_def)
  show ?thesis
    using run len calls errs nth by (intro exI [where x="?out"]) simp
qed

lemma failing_user:
  "fst (get_current_user failing) =
     Inr \<lparr>username = Some ''alice'', display_name = Some ''Alice'', email = Some []\<rparr>"
  by code_simp

lemma failing_type:
  "fst (get_subtask_issue_type_id (tick Myself failing)) = Inr (Some ''5'')"
  by code_simp

lemma failing_project:
  "fst (get_project ''PROJ-1'' (tick IssueTypes (tick Myself failing))) = Inr proj"
  by code_simp

lemma failing_outcomes:
  "map isl (attempt_outcomes demo_creator ''PROJ-1'' SUBTASK_TEMPLATES (p_id proj) ''5'' (Some ''alice'')
     (tick (GetIssue ''PROJ-1'') (tick IssueTypes (tick Myself failing))))
   = [False, True, False, False, False, False, False]"
  by code_simp

lemma failing_creation:
  "fst (create_subtasks demo_creator ''PROJ-1'' failing) =
   Inr \<lparr>created =
        [\<lparr>c_key = Some ''PROJ-7'', c_summary = ''Unit Test Case Execution'',
          c_status = ''success'', c_message = ''Created and assigned to alice''\<rparr>,
         \<lparr>c_key = None, c_summary = ''Peer Code Review'',
          c_status = ''error'', c_message = ''JiraError HTTP 400''\<rparr>,
         \<lparr>c_key = Some ''PROJ-8'', c_summary = ''Analysis & Understanding'',
          c_status = ''success'', c_message = ''Created and assigned to alice''\<rparr>,
         \<lparr>c_key = Some ''PROJ-9'', c_summary = ''Internal Grooming among Team Members'',
          c_status = ''success'', c_message = ''Created and assigned to alice''\<rparr>,
         \<lparr>c_key = Some ''PROJ-10'', c_summary = ''Dev Testing'',
          c_status = ''success'', c_message = ''Created and assigned to alice''\<rparr>,
         \<lparr>c_key = Some ''PROJ-11'', c_summary = ''Unit Test Case Creation'',
          c_status = ''success'', c_message = ''Created and assigned to alice''\<rparr>,
         \<lparr>c_key = Some ''PROJ-12'', c_summary = ''P0 Demo to QA and other stakeholders'',
          c_status = ''success'', c_message = ''Created and assigned to alice''\<rparr>],
        c_stats = \<lparr>c_total = 7, c_created = 6, c_failed = 1\<rparr>\<rparr>"
  by code_simp

theorem seven_attempts_witness:
  "fst (get_current_user failing) =
     Inr \<lparr>username = Some ''alice'', display_name = Some ''Alice'', email = Some []\<rparr> \<and>
   fst (get_subtask_issue_type_id (tick Myself failing)) = Inr (Some ''5'') \<and>
   fst (get_project ''PROJ-1'' (tick IssueTypes (tick Myself failing))) = Inr proj \<and>
   map isl (attempt_outcomes demo_creator ''PROJ-1'' SUBTASK_TEMPLATES (p_id proj) ''5'' (Some ''alice'')
     (tick (GetIssue ''PROJ-1'') (tick IssueTypes (tick Myself failing))))
     = [False, True, False, False, False, False, False] \<and>
   creation_calls (calls (snd (create_subtasks demo_creator ''PROJ-1'' failing))) = SUBTASK_TEMPLATES \<and>
   fst (create_subtasks demo_creator ''PROJ-1'' failing) =
   Inr \<lparr>created =
        [\<lparr>c_key = Some ''PROJ-7'', c_summary = ''Unit Test Case Execution'',
          c_status = ''success'', c_message = ''Created and assigned to alice''\<rparr>,
         \<lparr>c_key = None, c_summary = ''Peer Code Review'',
          c_status = ''error'', c_message = ''JiraError HTTP 400''\<rparr>,
         \<lparr>c_key = Some ''PROJ-8'', c_summary = ''Analysis & Understanding'',
          c_status = ''success'', c_message = ''Created and assigned to alice''\<rparr>,
         \<lparr>c_key = Some ''PROJ-9'', c_summary = ''Internal Grooming among Team Members'',
          c_status = ''success'', c_message = ''Created and assigned to alice''\<rparr>,
         \<lparr>c_key = Some ''PROJ-10'', c_summary = ''Dev Testing'',
          c_status = ''success'', c_message = ''Created and assigned to alice''\<rparr>,
         \<lparr>c_key = Some ''PROJ-11'', c_summary = ''Unit Test Case Creation'',
          c_status = ''success'', c_message = ''Created and assigned to alice''\<rparr>,
         \<lparr>c_key = Some ''PROJ-12'', c_summary = ''P0 Demo to QA and other stakeholders'',
          c_status = ''success'', c_message = ''Created and assigned to alice''\<rparr>],
        c_stats = \<lparr>c_total = 7, c_created = 6, c_failed = 1\<rparr>\<rparr>"
proof -
  have five: "''5'' \<noteq> []" by simp
  from seven_attempts [OF failing_user failing_type five failing_project refl, of demo_creator]
  have "creation_calls (calls (snd (create_subtasks demo_creator ''PROJ-1'' failing)))
      = creation_calls (calls failing) @ SUBTASK_TEMPLATES"
    by blast
  then have "creation_calls (calls (snd (create_subtasks demo_creator ''PROJ-1'' failing))) = SUBTASK_TEMPLATES"
    by (simp add: failing_def)
  with failing_user failing_type failing_project failing_outcomes failing_creation
  show ?thesis by simp
qed

section \<open>Created but not assigned\<close>

text \<open>
  C10. An attempt of the creation loop creates the sub-task by one remote call and,
  when that call succeeded, assigns it to the caller by a second remote call. When the
  second call raises, the attempt raises: the loop records the template as \<open>error\<close>
  with the exception's message and counts it under \<open>failed\<close>, although the sub-task
  exists at the tracker, unassigned; nothing removes it, and it is still there when the
  loop ends.
\<close>

theorem created_then_assign_fails:
  assumes "issues t parent_key = Some parent"
    and "next_fault (faults t) = None"
    and "k = p_key (f_project parent) @ ''-'' @ digits (next_number t)"
    and "fs = \<lparr>cf_project_id = project_id, cf_parent_key = parent_key, cf_summary = summ,
                cf_description = summ, cf_issuetype_id = type_id,
                cf_originalEstimate = default_estimate self,
                cf_custom = (custom_field_id self, custom_field_value self)\<rparr>"
    and "attempt = create_single_subtask self parent_key summ project_id type_id uname t"
  shows "calls (snd attempt) = calls t @ [CreateIssue fs, AssignIssue k uname] \<and>
         (next_fault (tl (faults t)) = Some e \<longrightarrow>
            fst attempt = Inl e \<and>
            issues (snd attempt) k =
              Some \<lparr>f_status = ''Open'', f_assignee = None, f_subtasks = [],
                    f_project = f_project parent\<rparr> \<and>
            create_loop self parent_key (summ # rest) project_id type_id uname (entries, failed_count) t =
              create_loop self parent_key rest project_id type_id uname
                (entries @ [\<lparr>c_key = None, c_summary = summ, c_status = ''error'', c_message = str e\<rparr>],
                 failed_count + 1) (snd attempt) \<and>
            k \<in> dom (issues (snd (create_loop self parent_key (summ # rest) project_id type_id uname
                                      (entries, failed_count) t))))"
proof -
  let ?d = "\<lparr>f_status = ''Open'', f_assignee = None, f_subtasks = [], f_project = f_project parent\<rparr>"
  let ?t1 = "(tick (CreateIssue fs) t)
      \<lparr>issues := (issues t)(parent_key \<mapsto> parent\<lparr>f_subtasks := f_subtasks parent @ [k]\<rparr>, k \<mapsto> ?d),
       next_number := Suc (next_number t)\<rparr>"
  have c: "create_subtask parent_key fs t = (Inr \<lparr>i_key = k, i_fields = ?d\<rparr>, ?t1)"
    using assms(1,2,3,4)
    by (simp add: create_subtask_def jira_create_issue_def remote_def Let_def)
  have f1: "faults ?t1 = tl (faults t)" and i1: "issues ?t1 k = Some ?d"
    and c1: "calls ?t1 = calls t @ [CreateIssue fs]"
    by simp_all
  have calls: "calls (snd attempt) = calls t @ [CreateIssue fs, AssignIssue k uname]"
    using c c1 unfolding assms(5)
    by (auto simp: create_single_subtask_def assms(4) [symmetric] assign_issue_def
        jira_assign_issue_def remote_def split: option.splits)
  show ?thesis
  proof (intro conjI impI)
    show "calls (snd attempt) = calls t @ [CreateIssue fs, AssignIssue k uname]" by (rule calls)
  next
    assume e: "next_fault (tl (faults t)) = Some e"
    then have a: "assign_issue \<lparr>i_key = k, i_fields = ?d\<rparr> uname ?t1 = (Inl e, tick (AssignIssue k uname) ?t1)"
      using f1 by (simp add: assign_issue_def jira_assign_issue_def remote_def)
    have att: "attempt = (Inl e, tick (AssignIssue k uname) ?t1)"
      using c a unfolding assms(5)
      by (simp add: create_single_subtask_def assms(4) [symmetric])
    then show "fst attempt = Inl e" by simp
    from att i1 show there: "issues (snd attempt) k = Some ?d" by simp
    from att show loop: "create_loop self parent_key (summ # rest) project_id type_id uname (entries, failed_count) t =
        create_loop self parent_key rest project_id type_id uname
          (entries @ [\<lparr>c_key = None, c_summary = summ, c_status = ''error'', c_message = str e\<rparr>],
           failed_count + 1) (snd attempt)"
      by (simp add: assms(5) [symmetric])
    from there have "k \<in> dom (issues (snd attempt))" by auto
    with create_loop_dom [of "snd attempt" self parent_key rest project_id type_id uname]
    show "k \<in> dom (issues (snd (create_loop self parent_key (summ # rest) project_id type_id uname
                                      (entries, failed_count) t)))"
      unfolding loop by blast
  qed
qed

lemma failing_assign_fields [simp]:
  "issues failing_assign ''PROJ-1'' =
     Some \<lparr>f_status = ''Open'', f_assignee = Some bob,
           f_subtasks = [''PROJ-2'', ''PROJ-3'', ''PROJ-4'', ''PROJ-5'', ''PROJ-6''],
           f_project = proj\<rparr>"
  "faults failing_assign = [None, Some bad_request]"
  "calls failing_assign = []"
  "next_number failing_assign = 7"
  by (simp_all add: failing_assign_def demo_def)

lemma digits_7: "digits 7 = ''7''"
  by code_simp

theorem created_then_assign_fails_witness:
  "issues failing_assign ''PROJ-1'' =
     Some \<lparr>f_status = ''Open'', f_assignee = Some bob,
           f_subtasks = [''PROJ-2'', ''PROJ-3'', ''PROJ-4'', ''PROJ-5'', ''PROJ-6''],
           f_project = proj\<rparr> \<and>
   faults failing_assign = [None, Some bad_request] \<and>
   fst (create_single_subtask demo_creator ''PROJ-1'' ''Peer Code Review'' ''10001'' ''5''
          (Some ''alice'') failing_assign) = Inl bad_request \<and>
   calls (snd (create_single_subtask demo_creator ''PROJ-1'' ''Peer Code Review'' ''10001'' ''5''
          (Some ''alice'') failing_assign)) =
     [CreateIssue \<lparr>cf_project_id = ''10001'', cf_parent_key = ''PROJ-1'',
                   cf_summary = ''Peer Code Review'', cf_description = ''Peer Code Review'',
                   cf_issuetype_id = ''5'', cf_originalEstimate = ''2h'',
                   cf_custom = (''customfield_10111'', ''Platform Comm Mgmt'')\<rparr>,
      AssignIssue ''PROJ-7'' (Some ''alice'')] \<and>
   issues (snd (create_single_subtask demo_creator ''PROJ-1'' ''Peer Code Review'' ''10001'' ''5''
          (Some ''alice'') failing_assign)) ''PROJ-7'' =
     Some \<lparr>f_status = ''Open'', f_assignee = None, f_subtasks = [], f_project = proj\<rparr> \<and>
   fst (create_loop demo_creator ''PROJ-1'' [''Peer Code Review''] ''10001'' ''5'' (Some ''alice'')
          ([], 0) failing_assign) =
     ([\<lparr>c_key = None, c_summary = ''Peer Code Review'', c_status = ''error'',
        c_message = ''JiraError HTTP 400''\<rparr>], 1) \<and>
   ''PROJ-7'' \<in> dom (issues (snd (create_loop demo_creator ''PROJ-1'' [''Peer Code Review''] ''10001''
          ''5'' (Some ''alice'') ([], 0) failing_assign)))"
proof -
  have k: "''PROJ-7'' = p_key (f_project \<lparr>f_status = ''Open'', f_assignee = Some bob,
           f_subtasks = [''PROJ-2'', ''PROJ-3'', ''PROJ-4'', ''PROJ-5'', ''PROJ-6''],
           f_project = proj\<rparr>) @ ''-'' @ digits (next_number failing_assign)"
    by (simp add: proj_def digits_7)
  have nf: "next_fault (faults failing_assign) = None" by simp
  have e: "next_fault (tl (faults failing_assign)) = Some bad_request" by simp
  from created_then_assign_fails [OF failing_assign_fields(1) nf k refl refl,
      where project_id="''10001''" and summ="''Peer Code Review''" and type_id="''5''"
        and self=demo_creator and uname="Some ''alice''" and e=bad_request and rest="[]"
        and entries="[]" and failed_count=0] e
  show ?thesis
    by (auto simp: demo_creator_def bad_request_def simp del: create_loop.simps(2))
qed

end
